theory Spec2Isabelle
  imports Complex_Main "HOL-Library.Log_Nat" "HOL-Library.Product_Lexorder" "HOL-Library.Multiset"
begin

section \<open>The TTL cache (class CostCache)\<close>

text \<open>
  \<^verbatim>\<open>CostCache\<close> holds a TTL in seconds and a dictionary from string keys to pairs
  (timestamp, value). \<^verbatim>\<open>datetime.now()\<close> is an input of every operation: the clock reading
  is passed in as a point on a time axis measured in seconds, and
  \<^verbatim>\<open>(datetime.now() - timestamp).total_seconds()\<close> is the difference of two readings, taken
  exactly (the float it returns is exact to the microsecond for intervals of up to 270 years).
\<close>

record 'v cost_cache =
  ttl :: int
  entries :: "string \<rightharpoonup> (rat \<times> 'v)"

definition cache_init :: "int \<Rightarrow> 'v cost_cache" where
  "cache_init ttl_seconds = \<lparr>ttl = ttl_seconds, entries = Map.empty\<rparr>"

definition cache_get :: "'v cost_cache \<Rightarrow> rat \<Rightarrow> string \<Rightarrow> 'v option \<times> 'v cost_cache" where
  "cache_get c now key =
     (case entries c key of
        None \<Rightarrow> (None, c)
      | Some (timestamp, v) \<Rightarrow>
          if now - timestamp < of_int (ttl c) then (Some v, c)
          else (None, c\<lparr>entries := (entries c)(key := None)\<rparr>))"

definition cache_set :: "'v cost_cache \<Rightarrow> rat \<Rightarrow> string \<Rightarrow> 'v \<Rightarrow> 'v cost_cache" where
  "cache_set c now key v = c\<lparr>entries := (entries c)(key \<mapsto> (now, v))\<rparr>"


section \<open>Python floats\<close>

text \<open>
  Costs are Python floats (IEEE-754 binary64). A finite float is modelled by the rational
  number it denotes; every arithmetic operation computes the exact rational result and
  rounds it to the nearest binary64 value, ties to even (53 significant bits, subnormal
  spacing \<open>2 ^ -1074\<close>). Infinities and NaN are outside the model: results of magnitude
  \<open>2 ^ 1024\<close> and above are rounded like any other value instead of overflowing.
\<close>

definition rhe :: "rat \<Rightarrow> int" where
  \<comment> \<open>round to the nearest integer, ties to the even one\<close>
  "rhe y = (let f = \<lfloor>y\<rfloor>; d = y - of_int f in
     if d < 1 / 2 then f else if 1 / 2 < d then f + 1 else if even f then f else f + 1)"

definition pow2 :: "int \<Rightarrow> rat" where
  "pow2 e = (if 0 \<le> e then 2 ^ nat e else 1 / 2 ^ nat (- e))"

definition ilog2 :: "rat \<Rightarrow> int" where
  \<comment> \<open>the binary exponent of a non-zero number: \<open>pow2 (ilog2 x) \<le> \<bar>x\<bar> < pow2 (ilog2 x + 1)\<close>\<close>
  "ilog2 x = (if 1 \<le> \<bar>x\<bar> then bitlen \<lfloor>\<bar>x\<bar>\<rfloor> - 1 else - bitlen (\<lceil>1 / \<bar>x\<bar>\<rceil> - 1))"

definition rnd :: "rat \<Rightarrow> rat" where
  \<comment> \<open>the binary64 value nearest to an exact result\<close>
  "rnd x = (if x = 0 then 0 else
     let k = max (ilog2 x - 52) (- 1074) in of_int (rhe (x / pow2 k)) * pow2 k)"

definition fadd :: "rat \<Rightarrow> rat \<Rightarrow> rat" where
  "fadd a b = rnd (a + b)"

definition fmul :: "rat \<Rightarrow> rat \<Rightarrow> rat" where
  "fmul a b = rnd (a * b)"

definition fdiv :: "rat \<Rightarrow> rat \<Rightarrow> rat" where
  \<comment> \<open>only used with a non-zero divisor\<close>
  "fdiv a b = rnd (a / b)"

definition float_of_int :: "int \<Rightarrow> rat" where
  "float_of_int n = rnd (of_int n)"

definition round2 :: "rat \<Rightarrow> rat" where
  \<comment> \<open>\<^verbatim>\<open>round(x, 2)\<close> on a float: the exact value is rounded to two decimals, ties to even,
     and the decimal result is converted back to a float\<close>
  "round2 x = rnd (of_int (rhe (x * 100)) / 100)"

section \<open>JSON values and HTTP responses\<close>

text \<open>
  The parsed body of a response is a JSON value; numbers keep the distinction Python makes
  between \<^verbatim>\<open>int\<close> and \<^verbatim>\<open>float\<close>. An object is the list of its items, keys distinct.
  Of a response the code reads the status, the \<^verbatim>\<open>Retry-After\<close> header (the code points of
  its value, \<open>None\<close> when the response has no such header) and the body, which is \<open>None\<close>
  when it is not JSON.
\<close>

datatype json =
    JNull
  | JBool bool
  | JInt int
  | JFloat rat
  | JStr string
  | JArr "json list"
  | JObj "(string \<times> json) list"

record response =
  status_code :: int
  retry_after :: "int list option"
  json_body :: "json option"

section \<open>Errors\<close>

text \<open>
  Every exception the modelled code can raise is a value. \<open>Unmodelled\<close> marks the one
  input on which the model does not follow the source: a cost cell that is a JSON string,
  which the response models would try to parse as a number.
\<close>

datatype error =
    CredentialError
  | RequestError
  | HTTPStatusError response
  | JSONDecodeError
  | ValueError
  | OverflowError
  | IndexError
  | KeyError
  | TypeError
  | AttributeError
  | ValidationError
  | Unmodelled

section \<open>Strings and integers\<close>

text \<open>
  \<^verbatim>\<open>str(n)\<close> for an integer, and the strings the code builds from it, are ASCII.
\<close>

definition digit_char :: "int \<Rightarrow> char" where
  "digit_char n = ''0123456789'' ! nat n"

function str_digits :: "int \<Rightarrow> string" where
  \<comment> \<open>the decimal digits of a number that is not negative\<close>
  "str_digits n = (if n < 10 then [digit_char n] else str_digits (n div 10) @ [digit_char (n mod 10)])"
  by pat_completeness auto
termination
  by (relation "measure nat") auto

declare str_digits.simps [simp del]

definition str_int :: "int \<Rightarrow> string" where
  "str_int i = (if i < 0 then CHR ''-'' # str_digits (- i) else str_digits i)"

definition digit_val :: "char \<Rightarrow> int option" where
  "digit_val c = (if c \<in> set ''0123456789'' then Some (of_char c - 48) else None)"

definition zfill :: "nat \<Rightarrow> string \<Rightarrow> string" where
  "zfill w s = replicate (w - length s) CHR ''0'' @ s"

text \<open>
  \<^verbatim>\<open>int(s)\<close> on a string, as CPython 3.11 computes it. The argument is a sequence of Unicode
  code points, here a list of integers, since a header value can hold any of them. In a
  first pass (\<^verbatim>\<open>_PyUnicode_TransformDecimalAndSpaceToASCII\<close>) the code points below 127 are kept
  as they are, and of the others a whitespace character becomes a space, a decimal digit
  (general category Nd of Unicode 14.0, the interpreter's database) becomes the ASCII digit
  of its value, and any other character becomes a question mark, which no number contains.
  The second pass (\<^verbatim>\<open>PyLong_FromString\<close>) skips ASCII whitespace (space and the controls 9 to
  13; the separators 28 to 31 are not skipped), reads one optional sign and then digits,
  between which single underscores may stand, skips ASCII whitespace again and must have
  reached the end. A number of more than 4300 digits, the interpreter's default limit, is
  refused. Every failure is a \<^verbatim>\<open>ValueError\<close>, here \<open>None\<close>.
\<close>

definition codes :: "string \<Rightarrow> int list" where
  \<comment> \<open>the code points of an ASCII string\<close>
  "codes s = map of_char s"

definition decimal_zeros :: "int list" where
  \<comment> \<open>the digits zero of the decimal digit ranges; the digits one to nine follow each\<close>
  "decimal_zeros =
     [0x0030, 0x0660, 0x06F0, 0x07C0, 0x0966, 0x09E6, 0x0A66, 0x0AE6, 0x0B66, 0x0BE6, 0x0C66,
      0x0CE6, 0x0D66, 0x0DE6, 0x0E50, 0x0ED0, 0x0F20, 0x1040, 0x1090, 0x17E0, 0x1810, 0x1946,
      0x19D0, 0x1A80, 0x1A90, 0x1B50, 0x1BB0, 0x1C40, 0x1C50, 0xA620, 0xA8D0, 0xA900, 0xA9D0,
      0xA9F0, 0xAA50, 0xABF0, 0xFF10, 0x104A0, 0x10D30, 0x11066, 0x110F0, 0x11136, 0x111D0,
      0x112F0, 0x11450, 0x114D0, 0x11650, 0x116C0, 0x11730, 0x118E0, 0x11950, 0x11C50, 0x11D50,
      0x11DA0, 0x16A60, 0x16AC0, 0x16B50, 0x1D7CE, 0x1D7D8, 0x1D7E2, 0x1D7EC, 0x1D7F6, 0x1E140,
      0x1E2F0, 0x1E950, 0x1FBF0]"

definition decimal_value :: "int \<Rightarrow> int option" where
  \<comment> \<open>\<^verbatim>\<open>Py_UNICODE_TODECIMAL\<close>\<close>
  "decimal_value c = map_option (\<lambda>z. c - z) (find (\<lambda>z. z \<le> c \<and> c \<le> z + 9) decimal_zeros)"

definition unicode_space :: "int \<Rightarrow> bool" where
  \<comment> \<open>\<^verbatim>\<open>Py_UNICODE_ISSPACE\<close> on the code points from 127 on\<close>
  "unicode_space c = (c = 0x85 \<or> c = 0xA0 \<or> c = 0x1680 \<or> (0x2000 \<le> c \<and> c \<le> 0x200A)
     \<or> c = 0x2028 \<or> c = 0x2029 \<or> c = 0x202F \<or> c = 0x205F \<or> c = 0x3000)"

definition to_ascii :: "int \<Rightarrow> int" where
  \<comment> \<open>the first pass, on one code point\<close>
  "to_ascii c =
     (if c < 127 then c
      else if unicode_space c then 0x20
      else (case decimal_value c of Some d \<Rightarrow> 0x30 + d | None \<Rightarrow> 0x3F))"

definition is_space :: "int \<Rightarrow> bool" where
  \<comment> \<open>\<^verbatim>\<open>Py_ISSPACE\<close>\<close>
  "is_space c = (c = 0x20 \<or> (0x09 \<le> c \<and> c \<le> 0x0D))"

definition strip :: "int list \<Rightarrow> int list" where
  "strip s = rev (dropWhile is_space (rev (dropWhile is_space s)))"

definition ascii_digit :: "int \<Rightarrow> int option" where
  "ascii_digit c = (if 0x30 \<le> c \<and> c \<le> 0x39 then Some (c - 0x30) else None)"

fun digits_value :: "int \<Rightarrow> int list \<Rightarrow> int option" where
  \<comment> \<open>the digits after the first; an underscore must be followed by a digit\<close>
  "digits_value acc [] = Some acc"
| "digits_value acc [c] = map_option (\<lambda>v. 10 * acc + v) (ascii_digit c)"
| "digits_value acc (c # d # ds) =
     (if c = 0x5F
      then (case ascii_digit d of None \<Rightarrow> None | Some v \<Rightarrow> digits_value (10 * acc + v) ds)
      else (case ascii_digit c of None \<Rightarrow> None | Some v \<Rightarrow> digits_value (10 * acc + v) (d # ds)))"

definition max_str_digits :: int where
  "max_str_digits = 4300"

definition parse_digits :: "int list \<Rightarrow> int option" where
  "parse_digits s =
     (if max_str_digits < int (length (filter (\<lambda>c. ascii_digit c \<noteq> None) s)) then None
      else (case s of [] \<Rightarrow> None
            | c # cs \<Rightarrow> (case ascii_digit c of None \<Rightarrow> None | Some v \<Rightarrow> digits_value v cs)))"

definition py_int :: "int list \<Rightarrow> int option" where
  "py_int s =
     (case strip (map to_ascii s) of
        [] \<Rightarrow> None
      | c # cs \<Rightarrow>
          if c = 0x2D then map_option uminus (parse_digits cs)
          else if c = 0x2B then parse_digits cs
          else parse_digits (c # cs))"

section \<open>Calendar dates\<close>

text \<open>
  \<^verbatim>\<open>datetime.date\<close>: a year from 1 to 9999, a month and a day of the proleptic Gregorian
  calendar. Constructing a date outside the calendar raises \<^verbatim>\<open>ValueError\<close>; arithmetic
  that leaves the range of years raises \<^verbatim>\<open>OverflowError\<close>. Adding a \<^verbatim>\<open>timedelta\<close> of
  whole days is stepping that many days forwards or backwards.
\<close>

datatype date = Date (year: int) (month: int) (day: int)

definition is_leap :: "int \<Rightarrow> bool" where
  "is_leap y = (y mod 4 = 0 \<and> (y mod 100 \<noteq> 0 \<or> y mod 400 = 0))"

definition days_in_month :: "int \<Rightarrow> int \<Rightarrow> int" where
  "days_in_month y m =
     (if m = 2 then (if is_leap y then 29 else 28)
      else if m = 4 \<or> m = 6 \<or> m = 9 \<or> m = 11 then 30 else 31)"

definition valid_date :: "date \<Rightarrow> bool" where
  "valid_date dt = (1 \<le> year dt \<and> year dt \<le> 9999 \<and> 1 \<le> month dt \<and> month dt \<le> 12
     \<and> 1 \<le> day dt \<and> day dt \<le> days_in_month (year dt) (month dt))"

definition mk_date :: "int \<Rightarrow> int \<Rightarrow> int \<Rightarrow> error + date" where
  "mk_date y m d = (if valid_date (Date y m d) then Inr (Date y m d) else Inl ValueError)"

definition replace_day :: "date \<Rightarrow> int \<Rightarrow> error + date" where
  "replace_day dt d = mk_date (year dt) (month dt) d"

definition next_day :: "date \<Rightarrow> error + date" where
  "next_day dt =
     (if day dt < days_in_month (year dt) (month dt) then Inr (Date (year dt) (month dt) (day dt + 1))
      else if month dt < 12 then Inr (Date (year dt) (month dt + 1) 1)
      else if year dt < 9999 then Inr (Date (year dt + 1) 1 1)
      else Inl OverflowError)"

definition prev_day :: "date \<Rightarrow> error + date" where
  "prev_day dt =
     (if 1 < day dt then Inr (Date (year dt) (month dt) (day dt - 1))
      else if 1 < month dt then Inr (Date (year dt) (month dt - 1) (days_in_month (year dt) (month dt - 1)))
      else if 1 < year dt then Inr (Date (year dt - 1) 12 31)
      else Inl OverflowError)"

fun step_days :: "(date \<Rightarrow> error + date) \<Rightarrow> nat \<Rightarrow> date \<Rightarrow> error + date" where
  "step_days f 0 dt = Inr dt"
| "step_days f (Suc n) dt = (case f dt of Inl e \<Rightarrow> Inl e | Inr dt' \<Rightarrow> step_days f n dt')"

definition add_days :: "date \<Rightarrow> int \<Rightarrow> error + date" where
  \<comment> \<open>\<^verbatim>\<open>dt + timedelta(days=n)\<close>\<close>
  "add_days dt n = (if 0 \<le> n then step_days next_day (nat n) dt else step_days prev_day (nat (- n)) dt)"

definition isoformat :: "date \<Rightarrow> string" where
  "isoformat dt = zfill 4 (str_int (year dt)) @ ''-'' @ zfill 2 (str_int (month dt)) @ ''-''
     @ zfill 2 (str_int (day dt))"

definition ascii_digits :: "string \<Rightarrow> int option" where
  \<comment> \<open>the value of a string of ASCII digits, as the date parser reads a field\<close>
  "ascii_digits s = (if s \<noteq> [] \<and> (\<forall>c \<in> set s. digit_val c \<noteq> None)
     then Some (foldl (\<lambda>a c. 10 * a + the (digit_val c)) 0 s) else None)"

definition fromisoformat :: "string \<Rightarrow> error + date" where
  \<comment> \<open>\<^verbatim>\<open>date.fromisoformat\<close> on the form \<^verbatim>\<open>YYYY-MM-DD\<close>; the week and basic forms that newer
     interpreters also accept are rejected here\<close>
  "fromisoformat s =
     (if length s = 10 \<and> s ! 4 = CHR ''-'' \<and> s ! 7 = CHR ''-'' then
        (case (ascii_digits (take 4 s), ascii_digits (take 2 (drop 5 s)), ascii_digits (drop 8 s)) of
           (Some y, Some m, Some d) \<Rightarrow> mk_date y m d
         | _ \<Rightarrow> Inl ValueError)
      else Inl ValueError)"

definition date_key :: "date \<Rightarrow> int \<times> int \<times> int" where
  \<comment> \<open>dates compare as (year, month, day)\<close>
  "date_key dt = (year dt, month dt, day dt)"

section \<open>The service and its environment\<close>

text \<open>
  The collaborators of \<^verbatim>\<open>AzureCostService\<close> are oracles, indexed by how often they have been
  used: the credential provider (\<open>None\<close> when it raises), the billing API (which may answer
  or fail in transport), the clock behind \<^verbatim>\<open>datetime.now()\<close> and the calendar behind
  \<^verbatim>\<open>date.today()\<close>. The state holds the fields of the service together with the counters
  of the oracles and the log of \<^verbatim>\<open>asyncio.sleep\<close> calls. A request runs as one task, from
  its first statement to its return.
\<close>

record request =
  url :: string
  bearer :: string
  body :: json

datatype outcome = Raised | Responded response

record env =
  credential :: "nat \<Rightarrow> string option"
  server :: "nat \<Rightarrow> request \<Rightarrow> outcome"
  now :: "nat \<Rightarrow> rat"
  today :: "nat \<Rightarrow> date"

record cost_by_service =
  service_name :: string
  cost :: rat
  currency :: string

record daily_cost =
  dc_date :: date
  dc_cost :: rat
  dc_currency :: string

record cost_summary =
  subscription_id :: string
  subscription_name :: string
  period_start :: date
  period_end :: date
  total_cost :: rat
  summary_currency :: string
  costs_by_service :: "cost_by_service list"
  daily_costs :: "daily_cost list"

record cost_forecast =
  fc_subscription_id :: string
  forecast_period_end :: date
  estimated_total :: rat
  fc_currency :: string

datatype cached = Summary cost_summary | Forecast cost_forecast

record state =
  svc_subscription_id :: string
  cache :: "cached cost_cache"
  token :: "string option"
  credential_calls :: nat
  requests :: nat
  sleeps :: "int list"
  now_reads :: nat
  today_reads :: nat

definition init :: "string \<Rightarrow> state" where
  \<comment> \<open>\<^verbatim>\<open>AzureCostService.__init__\<close>, for a given subscription\<close>
  "init sub = \<lparr>svc_subscription_id = sub, cache = cache_init 300, token = None,
     credential_calls = 0, requests = 0, sleeps = [], now_reads = 0, today_reads = 0\<rparr>"

definition get_token :: "env \<Rightarrow> state \<Rightarrow> (error + string) \<times> state" where
  "get_token e s =
     (case token s of
        Some t \<Rightarrow> (Inr t, s)
      | None \<Rightarrow>
          (case credential e (credential_calls s) of
             None \<Rightarrow> (Inl CredentialError, s\<lparr>credential_calls := Suc (credential_calls s)\<rparr>)
           | Some t \<Rightarrow> (Inr t, s\<lparr>credential_calls := Suc (credential_calls s), token := Some t\<rparr>)))"

section \<open>The query executor\<close>

text \<open>
  The log of sleeps holds the argument of every call of \<^verbatim>\<open>asyncio.sleep\<close>, in order. What the
  event loop does with it (it returns at once for a delay that is not positive) is not
  part of the model.
\<close>

definition retry_after_seconds :: "response \<Rightarrow> int option" where
  \<comment> \<open>\<^verbatim>\<open>int(response.headers.get("Retry-After", 60))\<close>; \<open>None\<close> when \<^verbatim>\<open>int\<close> raises\<close>
  "retry_after_seconds r = (case retry_after r of None \<Rightarrow> Some 60 | Some v \<Rightarrow> py_int v)"

definition finish :: "response \<Rightarrow> error + json" where
  \<comment> \<open>\<^verbatim>\<open>response.raise_for_status()\<close>, which raises unless the status is 2xx, then
     \<^verbatim>\<open>response.json()\<close>\<close>
  "finish r =
     (if 200 \<le> status_code r \<and> status_code r < 300
      then (case json_body r of None \<Rightarrow> Inl JSONDecodeError | Some j \<Rightarrow> Inr j)
      else Inl (HTTPStatusError r))"

fun attempts :: "env \<Rightarrow> request \<Rightarrow> int \<Rightarrow> nat \<Rightarrow> nat \<Rightarrow> state \<Rightarrow> (error + json) \<times> state" where
  \<comment> \<open>the loop \<^verbatim>\<open>for attempt in range(max_retries)\<close>, with the iterations still to run\<close>
  "attempts e req max_retries attempt 0 s = (Inr (JObj []), s)"
| "attempts e req max_retries attempt (Suc left) s =
     (case server e (requests s) req of
        Raised \<Rightarrow> (Inl RequestError, s\<lparr>requests := Suc (requests s)\<rparr>)
      | Responded r \<Rightarrow>
          (let s1 = s\<lparr>requests := Suc (requests s)\<rparr> in
           if status_code r = 429 then
             (case retry_after_seconds r of
                None \<Rightarrow> (Inl ValueError, s1)
              | Some d \<Rightarrow>
                  if int attempt < max_retries - 1
                  then attempts e req max_retries (Suc attempt) left (s1\<lparr>sleeps := sleeps s1 @ [d]\<rparr>)
                  else (finish r, s1))
           else (finish r, s1)))"

definition query_url :: "string \<Rightarrow> string" where
  "query_url sub = ''https://management.azure.com/subscriptions/'' @ sub
     @ ''/providers/Microsoft.CostManagement/query?api-version=2023-11-01''"

definition query_costs :: "env \<Rightarrow> json \<Rightarrow> int \<Rightarrow> state \<Rightarrow> (error + json) \<times> state" where
  "query_costs e query_body max_retries s =
     (case get_token e s of
        (Inl err, s1) \<Rightarrow> (Inl err, s1)
      | (Inr t, s1) \<Rightarrow>
          attempts e \<lparr>url = query_url (svc_subscription_id s1), bearer = t, body = query_body\<rparr>
            max_retries 0 (nat max_retries) s1)"

section \<open>Reading the rows of a response\<close>

definition bindR :: "error + 'a \<Rightarrow> ('a \<Rightarrow> error + 'b) \<Rightarrow> error + 'b" where
  "bindR m f = (case m of Inl err \<Rightarrow> Inl err | Inr a \<Rightarrow> f a)"

definition dict_get :: "json \<Rightarrow> string \<Rightarrow> json \<Rightarrow> error + json" where
  \<comment> \<open>\<^verbatim>\<open>j.get(k, default)\<close>; only a dictionary has the method\<close>
  "dict_get j k dflt =
     (case j of
        JObj items \<Rightarrow> Inr (case map_of items k of None \<Rightarrow> dflt | Some v \<Rightarrow> v)
      | _ \<Rightarrow> Inl AttributeError)"

definition result_rows :: "json \<Rightarrow> error + json" where
  \<comment> \<open>\<^verbatim>\<open>result.get("properties", {}).get("rows", [])\<close>\<close>
  "result_rows result = bindR (dict_get result ''properties'' (JObj [])) (\<lambda>p. dict_get p ''rows'' (JArr []))"

definition iterate :: "json \<Rightarrow> error + json list" where
  \<comment> \<open>the values a \<^verbatim>\<open>for\<close> loop takes: the elements of a list, the keys of a dictionary, the
     characters of a string\<close>
  "iterate j =
     (case j of
        JArr xs \<Rightarrow> Inr xs
      | JObj items \<Rightarrow> Inr (map (\<lambda>kv. JStr (fst kv)) items)
      | JStr cs \<Rightarrow> Inr (map (\<lambda>c. JStr [c]) cs)
      | _ \<Rightarrow> Inl TypeError)"

definition index :: "json \<Rightarrow> nat \<Rightarrow> error + json" where
  \<comment> \<open>\<^verbatim>\<open>j[i]\<close> for a literal index \<open>i \<ge> 0\<close>\<close>
  "index j i =
     (case j of
        JArr xs \<Rightarrow> (if i < length xs then Inr (xs ! i) else Inl IndexError)
      | JStr cs \<Rightarrow> (if i < length cs then Inr (JStr [cs ! i]) else Inl IndexError)
      | JObj items \<Rightarrow> Inl KeyError
      | _ \<Rightarrow> Inl TypeError)"

definition len :: "json \<Rightarrow> error + nat" where
  "len j =
     (case j of
        JArr xs \<Rightarrow> Inr (length xs)
      | JStr cs \<Rightarrow> Inr (length cs)
      | JObj items \<Rightarrow> Inr (length items)
      | _ \<Rightarrow> Inl TypeError)"

definition truthy :: "json \<Rightarrow> bool" where
  "truthy j =
     (case j of
        JNull \<Rightarrow> False
      | JBool b \<Rightarrow> b
      | JInt n \<Rightarrow> n \<noteq> 0
      | JFloat x \<Rightarrow> x \<noteq> 0
      | JStr cs \<Rightarrow> cs \<noteq> []
      | JArr xs \<Rightarrow> xs \<noteq> []
      | JObj items \<Rightarrow> items \<noteq> [])"

text \<open>
  The response models validate their fields: a string field takes a string, a float field
  takes a float or an integer (converted), and rejects a boolean or null.
\<close>

definition validate_str :: "json \<Rightarrow> error + string" where
  "validate_str j = (case j of JStr cs \<Rightarrow> Inr cs | _ \<Rightarrow> Inl ValidationError)"

definition validate_float :: "json \<Rightarrow> error + rat" where
  "validate_float j =
     (case j of
        JFloat x \<Rightarrow> Inr x
      | JInt n \<Rightarrow> Inr (float_of_int n)
      | JStr cs \<Rightarrow> Inl Unmodelled
      | _ \<Rightarrow> Inl ValidationError)"

section \<open>The aggregator\<close>

definition service_row :: "json \<Rightarrow> error + cost_by_service" where
  "service_row row =
     bindR (index row 0) (\<lambda>cost_val.
     bindR (index row 1) (\<lambda>name_val.
     bindR (len row) (\<lambda>n.
     bindR (if 2 < n then index row 2 else Inr (JStr ''USD'')) (\<lambda>currency_val.
     bindR (validate_str name_val) (\<lambda>name.
     bindR (validate_str currency_val) (\<lambda>cur.
     bindR (validate_float cost_val) (\<lambda>c.
       Inr \<lparr>service_name = name, cost = c, currency = cur\<rparr>)))))))"

fun service_loop :: "json list \<Rightarrow> cost_by_service list \<Rightarrow> rat \<Rightarrow> error + cost_by_service list \<times> rat" where
  \<comment> \<open>the first loop: each row appends its entry and adds its cost to the running total\<close>
  "service_loop [] acc running = Inr (acc, running)"
| "service_loop (row # rows) acc running =
     (case service_row row of
        Inl err \<Rightarrow> Inl err
      | Inr entry \<Rightarrow> service_loop rows (acc @ [entry]) (fadd running (cost entry)))"

definition parse_day_date :: "json \<Rightarrow> error + date" where
  \<comment> \<open>an \<^verbatim>\<open>int\<close> (a boolean is one too) is read from its decimal digits, anything else from
     the first ten characters of its string form; of these only a string can hold a date\<close>
  "parse_day_date date_val =
     (case date_val of
        JInt n \<Rightarrow>
          (let date_str = str_int n in
           case (py_int (codes (take 4 date_str)), py_int (codes (take 2 (drop 4 date_str))),
                 py_int (codes (take 2 (drop 6 date_str)))) of
             (Some y, Some m, Some d) \<Rightarrow> mk_date y m d
           | _ \<Rightarrow> Inl ValueError)
      | JStr cs \<Rightarrow> fromisoformat (take 10 cs)
      | _ \<Rightarrow> Inl ValueError)"

definition daily_row :: "json \<Rightarrow> error + daily_cost" where
  "daily_row row =
     bindR (index row 0) (\<lambda>cost_val.
     bindR (index row 1) (\<lambda>date_val.
     bindR (parse_day_date date_val) (\<lambda>day_date.
     bindR (validate_float cost_val) (\<lambda>c.
       Inr \<lparr>dc_date = day_date, dc_cost = c, dc_currency = ''USD''\<rparr>))))"

fun daily_loop :: "json list \<Rightarrow> daily_cost list \<Rightarrow> error + daily_cost list" where
  "daily_loop [] acc = Inr acc"
| "daily_loop (row # rows) acc =
     (case daily_row row of Inl err \<Rightarrow> Inl err | Inr entry \<Rightarrow> daily_loop rows (acc @ [entry]))"

definition sort_reverse :: "('a \<Rightarrow> 'k::linorder) \<Rightarrow> 'a list \<Rightarrow> 'a list" where
  \<comment> \<open>\<^verbatim>\<open>list.sort(key=f, reverse=True)\<close>: the list is reversed, sorted stably, and reversed again\<close>
  "sort_reverse f xs = rev (sort_key f (rev xs))"

definition build_summary :: "string \<Rightarrow> date \<Rightarrow> date \<Rightarrow> json \<Rightarrow> json \<Rightarrow> error + cost_summary" where
  \<comment> \<open>\<^verbatim>\<open>get_cost_summary\<close> from "Parse service costs" to the construction of the result\<close>
  "build_summary sub start_date end_date service_result daily_result =
     bindR (result_rows service_result) (\<lambda>srows.
     bindR (iterate srows) (\<lambda>srows'.
     bindR (service_loop srows' [] 0) (\<lambda>(by_service, running).
     bindR (result_rows daily_result) (\<lambda>drows.
     bindR (iterate drows) (\<lambda>drows'.
     bindR (daily_loop drows' []) (\<lambda>daily.
       Inr \<lparr>subscription_id = sub, subscription_name = ''virtual-bpm-prod'',
            period_start = start_date, period_end = end_date, total_cost = running,
            summary_currency = ''USD'',
            costs_by_service = sort_reverse cost by_service,
            daily_costs = sort_key (\<lambda>x. date_key (dc_date x)) daily\<rparr>))))))"

section \<open>The forecast calculator\<close>

definition end_of_month :: "date \<Rightarrow> error + date" where
  \<comment> \<open>\<^verbatim>\<open>(today.replace(day=28) + timedelta(days=4)).replace(day=1) - timedelta(days=1)\<close>\<close>
  "end_of_month td =
     bindR (replace_day td 28) (\<lambda>d28.
     bindR (add_days d28 4) (\<lambda>next_month.
     bindR (replace_day next_month 1) (\<lambda>first. add_days first (- 1))))"

definition current_cost :: "json \<Rightarrow> error + json" where
  \<comment> \<open>\<^verbatim>\<open>rows[0][0] if rows else 0.0\<close>\<close>
  "current_cost result =
     bindR (result_rows result) (\<lambda>rows.
       if truthy rows then bindR (index rows 0) (\<lambda>row. index row 0) else Inr (JFloat 0))"

definition estimate :: "json \<Rightarrow> int \<Rightarrow> int \<Rightarrow> error + rat" where
  \<comment> \<open>\<^verbatim>\<open>round((current_cost / days_elapsed) * days_in_month if days_elapsed > 0 else 0, 2)\<close>;
     an integer cost is divided by true division, a boolean is an integer\<close>
  "estimate c days_elapsed days_in =
     (if 0 < days_elapsed then
        (case c of
           JFloat x \<Rightarrow> Inr (round2 (fmul (fdiv x (float_of_int days_elapsed)) (float_of_int days_in)))
         | JInt n \<Rightarrow> Inr (round2 (fmul (rnd (of_int n / of_int days_elapsed)) (float_of_int days_in)))
         | JBool b \<Rightarrow> Inr (round2 (fmul (rnd ((if b then 1 else 0) / of_int days_elapsed)) (float_of_int days_in)))
         | _ \<Rightarrow> Inl TypeError)
      else Inr 0)"

section \<open>The cost service\<close>

definition bindE :: "(state \<Rightarrow> (error + 'a) \<times> state) \<Rightarrow> ('a \<Rightarrow> state \<Rightarrow> (error + 'b) \<times> state)
    \<Rightarrow> state \<Rightarrow> (error + 'b) \<times> state" where
  "bindE m f s = (case m s of (Inl err, s') \<Rightarrow> (Inl err, s') | (Inr a, s') \<Rightarrow> f a s')"

definition returnE :: "'a \<Rightarrow> state \<Rightarrow> (error + 'a) \<times> state" where
  "returnE a s = (Inr a, s)"

definition liftE :: "error + 'a \<Rightarrow> state \<Rightarrow> (error + 'a) \<times> state" where
  "liftE r s = (r, s)"

definition read_today :: "env \<Rightarrow> state \<Rightarrow> (error + date) \<times> state" where
  "read_today e s = (Inr (today e (today_reads s)), s\<lparr>today_reads := Suc (today_reads s)\<rparr>)"

definition cache_lookup :: "env \<Rightarrow> string \<Rightarrow> state \<Rightarrow> (error + cached option) \<times> state" where
  \<comment> \<open>\<^verbatim>\<open>self._cache.get(key)\<close>; the clock is read only when the key is present\<close>
  "cache_lookup e key s =
     (case entries (cache s) key of
        None \<Rightarrow> (Inr None, s)
      | Some _ \<Rightarrow>
          (let (r, c') = cache_get (cache s) (now e (now_reads s)) key
           in (Inr r, s\<lparr>cache := c', now_reads := Suc (now_reads s)\<rparr>)))"

definition cache_store :: "env \<Rightarrow> string \<Rightarrow> cached \<Rightarrow> state \<Rightarrow> (error + unit) \<times> state" where
  \<comment> \<open>\<^verbatim>\<open>self._cache.set(key, value)\<close>\<close>
  "cache_store e key v s =
     (Inr (), s\<lparr>cache := cache_set (cache s) (now e (now_reads s)) key v,
                now_reads := Suc (now_reads s)\<rparr>)"

definition summary_key :: "int \<Rightarrow> string" where
  "summary_key days = ''costs_'' @ str_int days"

definition forecast_key :: string where
  "forecast_key = ''forecast''"

definition total_cost_aggregation :: json where
  "total_cost_aggregation = JObj [(''totalCost'', JObj [(''name'', JStr ''Cost''), (''function'', JStr ''Sum'')])]"

definition service_query :: "date \<Rightarrow> date \<Rightarrow> json" where
  "service_query start_date end_date =
     JObj [(''type'', JStr ''ActualCost''), (''timeframe'', JStr ''Custom''),
           (''timePeriod'', JObj [(''from'', JStr (isoformat start_date)), (''to'', JStr (isoformat end_date))]),
           (''dataset'', JObj [(''granularity'', JStr ''None''),
                              (''aggregation'', total_cost_aggregation),
                              (''grouping'', JArr [JObj [(''type'', JStr ''Dimension''),
                                                         (''name'', JStr ''ServiceName'')]])])]"

definition daily_query :: "date \<Rightarrow> date \<Rightarrow> json" where
  "daily_query start_date end_date =
     JObj [(''type'', JStr ''ActualCost''), (''timeframe'', JStr ''Custom''),
           (''timePeriod'', JObj [(''from'', JStr (isoformat start_date)), (''to'', JStr (isoformat end_date))]),
           (''dataset'', JObj [(''granularity'', JStr ''Daily''),
                              (''aggregation'', total_cost_aggregation)])]"

definition forecast_query :: json where
  "forecast_query =
     JObj [(''type'', JStr ''ActualCost''), (''timeframe'', JStr ''MonthToDate''),
           (''dataset'', JObj [(''granularity'', JStr ''None''),
                              (''aggregation'', total_cost_aggregation)])]"

definition get_cost_summary :: "env \<Rightarrow> int \<Rightarrow> state \<Rightarrow> (error + cached) \<times> state" where
  \<comment> \<open>a cached object is always true in \<^verbatim>\<open>if cached\<close>, so the test is whether the cache
     returned a value\<close>
  "get_cost_summary e days =
     bindE (cache_lookup e (summary_key days)) (\<lambda>cached.
       case cached of
         Some v \<Rightarrow> returnE v
       | None \<Rightarrow>
           bindE (read_today e) (\<lambda>end_date.
           bindE (liftE (add_days end_date (- days))) (\<lambda>start_date.
           bindE (query_costs e (service_query start_date end_date) 3) (\<lambda>service_result.
           bindE (query_costs e (daily_query start_date end_date) 3) (\<lambda>daily_result.
           bindE (\<lambda>s. (build_summary (svc_subscription_id s) start_date end_date
                          service_result daily_result, s)) (\<lambda>result.
           bindE (cache_store e (summary_key days) (Summary result)) (\<lambda>_.
             returnE (Summary result))))))))"

definition get_forecast :: "env \<Rightarrow> state \<Rightarrow> (error + cached) \<times> state" where
  "get_forecast e =
     bindE (cache_lookup e forecast_key) (\<lambda>cached.
       case cached of
         Some v \<Rightarrow> returnE v
       | None \<Rightarrow>
           bindE (read_today e) (\<lambda>td.
           bindE (liftE (end_of_month td)) (\<lambda>eom.
           bindE (query_costs e forecast_query 3) (\<lambda>result.
           bindE (liftE (current_cost result)) (\<lambda>c.
           bindE (read_today e) (\<lambda>td2.
           bindE (liftE (estimate c (day td2) (day eom))) (\<lambda>est.
           bindE (\<lambda>s. (Inr \<lparr>fc_subscription_id = svc_subscription_id s, forecast_period_end = eom,
                             estimated_total = est, fc_currency = ''USD''\<rparr>, s)) (\<lambda>forecast.
           bindE (cache_store e forecast_key (Forecast forecast)) (\<lambda>_.
             returnE (Forecast forecast))))))))))"

text \<open>A sequence of calls on one service, as the routes of the application make them.\<close>

datatype call = GetToken | QueryCosts json int | GetCostSummary int | GetForecast

fun perform :: "env \<Rightarrow> call \<Rightarrow> state \<Rightarrow> state" where
  "perform e GetToken s = snd (get_token e s)"
| "perform e (QueryCosts q n) s = snd (query_costs e q n s)"
| "perform e (GetCostSummary days) s = snd (get_cost_summary e days s)"
| "perform e GetForecast s = snd (get_forecast e s)"

fun run :: "env \<Rightarrow> call list \<Rightarrow> state \<Rightarrow> state" where
  "run e [] s = s"
| "run e (c # cs) s = run e cs (perform e c s)"

section \<open>Notions used in the statements\<close>

definition throttled :: "env \<Rightarrow> request \<Rightarrow> nat \<Rightarrow> bool" where
  \<comment> \<open>the billing API answers its \<open>n\<close>-th request with 429 and a \<^verbatim>\<open>Retry-After\<close> header that
     is absent or read by \<^verbatim>\<open>int\<close>\<close>
  "throttled e req n =
     (case server e n req of
        Raised \<Rightarrow> False
      | Responded r \<Rightarrow> status_code r = 429 \<and> retry_after_seconds r \<noteq> None)"

definition delay :: "env \<Rightarrow> request \<Rightarrow> nat \<Rightarrow> int" where
  \<comment> \<open>the seconds the answer to the \<open>n\<close>-th request asks to wait\<close>
  "delay e req n =
     (case server e n req of
        Raised \<Rightarrow> 0
      | Responded r \<Rightarrow> (case retry_after_seconds r of None \<Rightarrow> 0 | Some d \<Rightarrow> d))"

definition token_is :: "string \<Rightarrow> nat \<Rightarrow> state \<Rightarrow> bool" where
  \<comment> \<open>the service holds the token \<open>t\<close> and the credential provider has been called \<open>n\<close> times\<close>
  "token_is t n s = (token s = Some t \<and> credential_calls s = n)"

definition put_entry :: "string \<Rightarrow> (rat \<times> cached) option \<Rightarrow> state \<Rightarrow> state" where
  \<comment> \<open>the state with the cache entry of one key replaced (or removed)\<close>
  "put_entry k x s = s\<lparr>cache := (cache s)\<lparr>entries := (entries (cache s))(k := x)\<rparr>\<rparr>"

definition ignores :: "(state \<Rightarrow> 'a \<times> state) \<Rightarrow> string \<Rightarrow> bool" where
  \<comment> \<open>an operation neither reads nor writes the cache entry of a key: replacing the entry
     before the operation is the same as replacing it afterwards\<close>
  "ignores m k = (\<forall>x s. m (put_entry k x s) = (fst (m s), put_entry k x (snd (m s))))"

definition decimal_integer_string :: "int list \<Rightarrow> bool" where
  \<comment> \<open>a string of one or more decimal digits, the delay in seconds as the header is specified\<close>
  "decimal_integer_string v = (v \<noteq> [] \<and> list_all (\<lambda>c. 0x30 \<le> c \<and> c \<le> 0x39) v)"

definition decimal_number :: "int list \<Rightarrow> int" where
  \<comment> \<open>the number that a string of decimal digits denotes\<close>
  "decimal_number v = foldl (\<lambda>a c. 10 * a + (c - 0x30)) 0 v"

definition number_char :: "int \<Rightarrow> bool" where
  \<comment> \<open>a character that a string read by \<^verbatim>\<open>int\<close> can hold: whitespace, a sign, an underscore
     or a decimal digit\<close>
  "number_char c = (is_space (to_ascii c) \<or> to_ascii c = 0x2B \<or> to_ascii c = 0x2D \<or> to_ascii c = 0x5F
     \<or> ascii_digit (to_ascii c) \<noteq> None)"

definition nearest_int :: "int \<Rightarrow> rat \<Rightarrow> bool" where
  \<comment> \<open>\<open>k\<close> is the integer nearest to \<open>y\<close>, the even one of the two when \<open>y\<close> lies half-way\<close>
  "nearest_int k y = (\<bar>y - of_int k\<bar> \<le> 1 / 2 \<and> (\<bar>y - of_int k\<bar> = 1 / 2 \<longrightarrow> even k))"

definition py_sum :: "rat list \<Rightarrow> rat" where
  \<comment> \<open>\<^verbatim>\<open>sum(xs)\<close> over floats: added from the left, starting at 0\<close>
  "py_sum xs = foldl fadd 0 xs"



section \<open>Example environments\<close>

text \<open>
  Billing APIs and responses on which the statements are evaluated: an API that always
  throttles, one that throttles once and then answers, one whose throttling response carries
  a date in \<^verbatim>\<open>Retry-After\<close> and one where it carries digits with an underscore, one that
  reports a cost on the third of January, one that reports three services costing 0.1, 0.2
  and 0.3, and a response with equal costs and a credit.
\<close>

definition always_429 :: env where
  "always_429 = \<lparr>credential = (\<lambda>n. Some ''t0''),
     server = (\<lambda>n req. Responded \<lparr>status_code = 429, retry_after = None, json_body = None\<rparr>),
     now = (\<lambda>n. 0), today = (\<lambda>n. Date 2024 1 31)\<rparr>"

definition retry_once :: env where
  "retry_once = \<lparr>credential = (\<lambda>n. Some ''t0''),
     server = (\<lambda>n req. if n = 0
        then Responded \<lparr>status_code = 429, retry_after = Some (codes ''5''), json_body = None\<rparr>
        else Responded \<lparr>status_code = 200, retry_after = None,
               json_body = Some (JObj [(''properties'', JObj [(''rows'', JArr [JArr [JFloat 150]])])])\<rparr>),
     now = (\<lambda>n. 0), today = (\<lambda>n. Date 2024 4 15)\<rparr>"

definition http_date_429 :: env where
  "http_date_429 = \<lparr>credential = (\<lambda>n. Some ''t0''),
     server = (\<lambda>n req. Responded \<lparr>status_code = 429,
        retry_after = Some (codes ''Wed, 21 Oct 2015 07:28:00 GMT''), json_body = None\<rparr>),
     now = (\<lambda>n. 0), today = (\<lambda>n. Date 2024 1 31)\<rparr>"

definition underscore_429 :: env where
  \<comment> \<open>a billing API whose first answer is 429 with \<^verbatim>\<open>Retry-After: 1_0\<close>\<close>
  "underscore_429 = \<lparr>credential = (\<lambda>n. Some ''t0''),
     server = (\<lambda>n req. if n = 0
        then Responded \<lparr>status_code = 429, retry_after = Some (codes ''1_0''), json_body = None\<rparr>
        else Responded \<lparr>status_code = 200, retry_after = None,
               json_body = Some (JObj [(''properties'', JObj [(''rows'', JArr [JArr [JFloat 150]])])])\<rparr>),
     now = (\<lambda>n. 0), today = (\<lambda>n. Date 2024 4 15)\<rparr>"

definition third_of_january :: env where
  \<comment> \<open>a billing API that reports a cost of 100, as an integer, on the third day of a month of
     31 days\<close>
  "third_of_january = \<lparr>credential = (\<lambda>n. Some ''t0''),
     server = (\<lambda>n req. Responded \<lparr>status_code = 200, retry_after = None,
        json_body = Some (JObj [(''properties'', JObj [(''rows'', JArr [JArr [JInt 100]])])])\<rparr>),
     now = (\<lambda>n. 0), today = (\<lambda>n. Date 2024 1 3)\<rparr>"

definition f1033_33 :: rat where
  \<comment> \<open>the float written 1033.33\<close>
  "f1033_33 = 568079175164887 / 549755813888"

definition f0_1 :: rat where
  \<comment> \<open>the float written 0.1\<close>
  "f0_1 = 3602879701896397 / 36028797018963968"

definition f0_2 :: rat where
  \<comment> \<open>the float written 0.2\<close>
  "f0_2 = 3602879701896397 / 18014398509481984"

definition f0_3 :: rat where
  \<comment> \<open>the float written 0.3\<close>
  "f0_3 = 5404319552844595 / 18014398509481984"

definition tenths_rows :: json where
  "tenths_rows = JObj [(''properties'', JObj [(''rows'',
     JArr [JArr [JFloat f0_1, JStr ''A''], JArr [JFloat f0_2, JStr ''B''], JArr [JFloat f0_3, JStr ''C'']])])]"

definition tenths :: env where
  \<comment> \<open>a billing API that answers the service query with costs 0.1, 0.2 and 0.3 and every
     later query with no rows\<close>
  "tenths = \<lparr>credential = (\<lambda>n. Some ''t0''),
     server = (\<lambda>n req. Responded \<lparr>status_code = 200, retry_after = None,
        json_body = Some (if n = 0 then tenths_rows else JObj [])\<rparr>),
     now = (\<lambda>n. 0), today = (\<lambda>n. Date 2024 1 31)\<rparr>"

definition credit_rows :: json where
  "credit_rows = JObj [(''properties'', JObj [(''rows'',
     JArr [JArr [JInt 5, JStr ''A''], JArr [JFloat (- 3), JStr ''Credit'', JStr ''EUR''],
           JArr [JInt 5, JStr ''B''], JArr [JFloat 7, JStr ''C'']])])]"

section \<open>Properties of the cache\<close>

text \<open>
  Claim C2. For every TTL \<open>t\<close>, every key stored at time \<open>s\<close> and every read at time
  \<open>s + e\<close>: the read returns the stored value exactly when \<open>e < t\<close>; it returns nothing and
  removes the entry exactly when \<open>t \<le> e\<close>; the TTL and every other key's entry are as they
  were before the read.
\<close>

theorem cache_get_ttl:
  fixes c :: "'v cost_cache" and s e :: rat and k :: string and v :: 'v
  defines "c1 \<equiv> cache_set c s k v"
  defines "r \<equiv> cache_get c1 (s + e) k"
  shows "((fst r = Some v) = (e < of_int (ttl c)))
    \<and> ((fst r = None \<and> entries (snd r) k = None) = (of_int (ttl c) \<le> e))
    \<and> (e < of_int (ttl c) \<longrightarrow> snd r = c1)
    \<and> (\<forall>k'. k' \<noteq> k \<longrightarrow> entries (snd r) k' = entries c1 k')
    \<and> ttl (snd r) = ttl c"
  by (auto simp: c1_def r_def cache_get_def cache_set_def)

theorem cache_get_ttl_witness:
  "fst (cache_get (cache_set (cache_init 300) 10 ''costs_30'' (7::nat)) (10 + 299) ''costs_30'') = Some 7
   \<and> fst (cache_get (cache_set (cache_init 300) 10 ''costs_30'' (7::nat)) (10 + 300) ''costs_30'') = None
   \<and> entries (snd (cache_get (cache_set (cache_set (cache_init 300) 10 ''forecast'' (1::nat)) 10 ''costs_30'' 7)
         (10 + 300) ''costs_30'')) ''forecast'' = Some (10, 1)"
  using cache_get_ttl [of "cache_init 300" 10 "''costs_30''" "7::nat" 299]
    cache_get_ttl [of "cache_init 300" 10 "''costs_30''" "7::nat" 300]
    cache_get_ttl [of "cache_set (cache_init 300) 10 ''forecast'' (1::nat)" 10 "''costs_30''" 7 300]
  by (simp add: cache_init_def cache_set_def)

section \<open>Properties of the query executor\<close>

lemma attempts_throttled:
  "\<forall>i<k. throttled e req (requests s + i) \<Longrightarrow> k \<le> left \<Longrightarrow> k = 0 \<or> int (a + k) \<le> mr - 1 \<Longrightarrow>
   attempts e req mr a left s =
   attempts e req mr (a + k) (left - k)
     (s\<lparr>requests := requests s + k,
        sleeps := sleeps s @ map (delay e req) [requests s..<requests s + k]\<rparr>)"
proof (induction k arbitrary: a left s)
  case 0
  then show ?case by simp
next
  case (Suc k)
  from Suc.prems(2) obtain left' where left: "left = Suc left'" "k \<le> left'"
    by (cases left) auto
  from Suc.prems(1) have "throttled e req (requests s)"
    by (metis add.right_neutral zero_less_Suc)
  then obtain r d where r: "server e (requests s) req = Responded r" "status_code r = 429"
      "retry_after_seconds r = Some d"
    by (auto simp: throttled_def split: outcome.splits)
  have d: "delay e req (requests s) = d"
    using r by (simp add: delay_def)
  let ?s' = "s\<lparr>requests := Suc (requests s), sleeps := sleeps s @ [d]\<rparr>"
  from Suc.prems(3) have guard: "int a < mr - 1" by auto
  have step: "attempts e req mr a left s = attempts e req mr (Suc a) left' ?s'"
    using r guard by (simp add: left)
  have th: "\<forall>i<k. throttled e req (requests ?s' + i)"
    using Suc.prems(1) by (auto simp: less_Suc_eq_0_disj)
  have g: "k = 0 \<or> int (Suc a + k) \<le> mr - 1"
    using Suc.prems(3) by auto
  have "attempts e req mr (Suc a) left' ?s' =
        attempts e req mr (Suc a + k) (left' - k)
          (?s'\<lparr>requests := requests ?s' + k,
               sleeps := sleeps ?s' @ map (delay e req) [requests ?s'..<requests ?s' + k]\<rparr>)"
    by (rule Suc.IH [OF th left(2) g])
  moreover have "[requests s..<Suc (requests s + k)] = requests s # [Suc (requests s)..<Suc (requests s + k)]"
    by (subst upt_rec) simp
  ultimately show ?case
    unfolding step by (simp add: left d del: upt_Suc)
qed

lemma finish_429: "status_code r = 429 \<Longrightarrow> finish r = Inl (HTTPStatusError r)"
  by (simp add: finish_def)

lemma attempts_last_throttled:
  assumes "server e (requests s) req = Responded r" "status_code r = 429"
    "retry_after_seconds r \<noteq> None" "\<not> int a < mr - 1"
  shows "attempts e req mr a (Suc left) s = (Inl (HTTPStatusError r), s\<lparr>requests := Suc (requests s)\<rparr>)"
  using assms by (auto simp: finish_429)

lemma attempts_answered:
  assumes "server e (requests s) req = Responded r" "status_code r \<noteq> 429"
  shows "attempts e req mr a (Suc left) s = (finish r, s\<lparr>requests := Suc (requests s)\<rparr>)"
  using assms by simp

lemma attempts_bad_header:
  assumes "server e (requests s) req = Responded r" "status_code r = 429"
    "retry_after_seconds r = None"
  shows "attempts e req mr a (Suc left) s = (Inl ValueError, s\<lparr>requests := Suc (requests s)\<rparr>)"
  using assms by simp

lemma query_costs_token:
  "get_token e s = (Inr t, s1) \<Longrightarrow>
   query_costs e q mr s =
     attempts e \<lparr>url = query_url (svc_subscription_id s1), bearer = t, body = q\<rparr> mr 0 (nat mr) s1"
  by (simp add: query_costs_def)

lemma build_summary_empty:
  "build_summary sub a b (JObj []) (JObj []) =
     Inr \<lparr>subscription_id = sub, subscription_name = ''virtual-bpm-prod'', period_start = a,
          period_end = b, total_cost = 0, summary_currency = ''USD'', costs_by_service = [],
          daily_costs = []\<rparr>"
  by (simp add: build_summary_def result_rows_def dict_get_def bindR_def iterate_def sort_reverse_def)

lemma get_cost_summary_service_fails:
  assumes "cache_lookup e (summary_key days) s = (Inr None, sa)"
    and "add_days (today e (today_reads sa)) (- days) = Inr start"
    and "query_costs e (service_query start (today e (today_reads sa))) 3
           (sa\<lparr>today_reads := Suc (today_reads sa)\<rparr>) = (Inl err, sb)"
  shows "get_cost_summary e days s = (Inl err, sb)"
  using assms by (simp add: get_cost_summary_def bindE_def read_today_def liftE_def)

lemma get_cost_summary_daily_fails:
  assumes "cache_lookup e (summary_key days) s = (Inr None, sa)"
    and "add_days (today e (today_reads sa)) (- days) = Inr start"
    and "query_costs e (service_query start (today e (today_reads sa))) 3
           (sa\<lparr>today_reads := Suc (today_reads sa)\<rparr>) = (Inr sr, sb)"
    and "query_costs e (daily_query start (today e (today_reads sa))) 3 sb = (Inl err, sc)"
  shows "get_cost_summary e days s = (Inl err, sc)"
  using assms by (simp add: get_cost_summary_def bindE_def read_today_def liftE_def)

lemma get_forecast_query_fails:
  assumes "cache_lookup e forecast_key s = (Inr None, sa)"
    and "end_of_month (today e (today_reads sa)) = Inr eom"
    and "query_costs e forecast_query 3 (sa\<lparr>today_reads := Suc (today_reads sa)\<rparr>) = (Inl err, sb)"
  shows "get_forecast e s = (Inl err, sb)"
  using assms by (simp add: get_forecast_def bindE_def read_today_def liftE_def)

lemma dropWhile_keeps: "x \<in> set s \<Longrightarrow> \<not> P x \<Longrightarrow> x \<in> set (dropWhile P s)"
  by (induction s) auto

lemma strip_keeps: "x \<in> set s \<Longrightarrow> \<not> is_space x \<Longrightarrow> x \<in> set (strip s)"
  by (simp add: strip_def dropWhile_keeps)

lemma digits_value_chars:
  "digits_value acc s = Some n \<Longrightarrow> x \<in> set s \<Longrightarrow> x = 0x5F \<or> ascii_digit x \<noteq> None"
  by (induction acc s rule: digits_value.induct) (auto split: if_splits option.splits)

lemma parse_digits_chars:
  "parse_digits s = Some n \<Longrightarrow> x \<in> set s \<Longrightarrow> x = 0x5F \<or> ascii_digit x \<noteq> None"
  by (cases s) (auto simp: parse_digits_def dest: digits_value_chars split: if_splits option.splits)

lemma py_int_chars:
  assumes "py_int v = Some n" "c \<in> set v"
  shows "number_char c"
proof (rule ccontr)
  assume n: "\<not> number_char c"
  let ?a = "to_ascii c"
  from n have a: "\<not> is_space ?a" "?a \<noteq> 0x2B" "?a \<noteq> 0x2D" "?a \<noteq> 0x5F" "ascii_digit ?a = None"
    by (simp_all add: number_char_def)
  from assms(2) have "?a \<in> set (map to_ascii v)"
    by simp
  then have m: "?a \<in> set (strip (map to_ascii v))"
    using a(1) by (rule strip_keeps)
  then obtain c0 cs where s: "strip (map to_ascii v) = c0 # cs"
    by (cases "strip (map to_ascii v)") auto
  from assms(1) s obtain k where k: "parse_digits cs = Some k \<and> (c0 = 0x2D \<or> c0 = 0x2B) \<or> parse_digits (c0 # cs) = Some k"
    by (auto simp: py_int_def split: if_splits)
  from k m s a show False
    using parse_digits_chars [of cs k ?a] parse_digits_chars [of "c0 # cs" k ?a]
    by auto
qed

lemma digits_value_digits:
  "list_all (\<lambda>c. 0x30 \<le> c \<and> c \<le> 0x39) s \<Longrightarrow>
   digits_value acc s = Some (foldl (\<lambda>a c. 10 * a + (c - 0x30)) acc s)"
  by (induction acc s rule: digits_value.induct) (auto simp: ascii_digit_def)

lemma dropWhile_id: "s \<noteq> [] \<Longrightarrow> \<not> P (hd s) \<Longrightarrow> dropWhile P s = s"
  by (cases s) auto

lemma py_int_decimal:
  assumes "decimal_integer_string v" "int (length v) \<le> max_str_digits"
  shows "py_int v = Some (decimal_number v)"
proof -
  from assms(1) have ne: "v \<noteq> []" and all: "list_all (\<lambda>c. 0x30 \<le> c \<and> c \<le> 0x39) v"
    by (simp_all add: decimal_integer_string_def)
  from all have m: "map to_ascii v = v"
    by (induction v) (simp_all add: to_ascii_def)
  from all have ns: "\<And>x. x \<in> set v \<Longrightarrow> \<not> is_space x"
    by (auto simp: list_all_iff is_space_def)
  from ne ns have "dropWhile is_space v = v"
    by (intro dropWhile_id) simp_all
  moreover from ne ns have "dropWhile is_space (rev v) = rev v"
    by (intro dropWhile_id) (simp_all add: hd_rev)
  ultimately have st: "strip v = v"
    by (simp add: strip_def)
  from all have f: "filter (\<lambda>c. ascii_digit c \<noteq> None) v = v"
    by (induction v) (simp_all add: ascii_digit_def)
  obtain c cs where v: "v = c # cs"
    using ne by (cases v) auto
  from all v have c: "0x30 \<le> c" "c \<le> 0x39" "list_all (\<lambda>c. 0x30 \<le> c \<and> c \<le> 0x39) cs"
    by simp_all
  have "parse_digits v = Some (foldl (\<lambda>a c. 10 * a + (c - 0x30)) 0 v)"
    using assms(2) c f
    by (simp add: parse_digits_def v ascii_digit_def digits_value_digits)
  moreover have "py_int v = (if c = 0x2D then map_option uminus (parse_digits cs)
      else if c = 0x2B then parse_digits cs else parse_digits v)"
    unfolding py_int_def m st by (simp add: v)
  ultimately show ?thesis
    using c(1,2) by (simp add: decimal_number_def)
qed

text \<open>
  Claim C1, as the code has it. The claim says that when every allowed attempt is answered
  with 429 the executor returns an empty result. It does not: the attempt before the bound
  is the last to sleep, and the last attempt's 429 reaches \<^verbatim>\<open>raise_for_status\<close>.
  The theorem evaluates the executor and both of its callers against an API that always
  answers 429: each of them fails with the status error of the third response.
\<close>

theorem all_attempts_429_counterexample:
  "fst (query_costs always_429 forecast_query 3 (init ''sub''))
     = Inl (HTTPStatusError \<lparr>status_code = 429, retry_after = None, json_body = None\<rparr>)
   \<and> requests (snd (query_costs always_429 forecast_query 3 (init ''sub''))) = 3
   \<and> sleeps (snd (query_costs always_429 forecast_query 3 (init ''sub''))) = [60, 60]
   \<and> fst (get_cost_summary always_429 30 (init ''sub''))
     = Inl (HTTPStatusError \<lparr>status_code = 429, retry_after = None, json_body = None\<rparr>)
   \<and> fst (get_forecast always_429 (init ''sub''))
     = Inl (HTTPStatusError \<lparr>status_code = 429, retry_after = None, json_body = None\<rparr>)"
  by code_simp

text \<open>
  Claim C1 (amended). With at least one attempt allowed and every attempt throttled (status
  429, \<^verbatim>\<open>Retry-After\<close> absent or read by \<^verbatim>\<open>int\<close>), the executor sleeps after each attempt but
  the last and fails with the status error of the last response. It returns the empty result
  only when no attempt is allowed, and the aggregator reads empty results as a summary
  without rows. The callers pass a failure of the executor on: when \<^verbatim>\<open>get_cost_summary\<close> finds
  nothing in the cache and its service query or its daily query fails, it fails with that
  error and in that state, and so does \<^verbatim>\<open>get_forecast\<close> when its query fails.
\<close>

theorem query_costs_exhausted:
  assumes tok: "get_token e s = (Inr t, s1)"
    and req: "req = \<lparr>url = query_url (svc_subscription_id s1), bearer = t, body = q\<rparr>"
  shows "(0 < mr \<and> (\<forall>i<nat mr. throttled e req (requests s1 + i)) \<longrightarrow>
           (\<exists>r. server e (requests s1 + nat mr - 1) req = Responded r \<and>
                query_costs e q mr s =
                  (Inl (HTTPStatusError r),
                   s1\<lparr>requests := requests s1 + nat mr,
                      sleeps := sleeps s1 @ map (delay e req) [requests s1..<requests s1 + nat mr - 1]\<rparr>)))
       \<and> (mr \<le> 0 \<longrightarrow> query_costs e q mr s = (Inr (JObj []), s1))
       \<and> build_summary sub a b (JObj []) (JObj []) =
           Inr \<lparr>subscription_id = sub, subscription_name = ''virtual-bpm-prod'', period_start = a,
                period_end = b, total_cost = 0, summary_currency = ''USD'', costs_by_service = [],
                daily_costs = []\<rparr>
       \<and> (cache_lookup e (summary_key days) c0 = (Inr None, c1) \<and>
          add_days (today e (today_reads c1)) (- days) = Inr start \<and>
          query_costs e (service_query start (today e (today_reads c1))) 3
            (c1\<lparr>today_reads := Suc (today_reads c1)\<rparr>) = (Inl err, c2) \<longrightarrow>
          get_cost_summary e days c0 = (Inl err, c2))
       \<and> (cache_lookup e (summary_key days) c0 = (Inr None, c1) \<and>
          add_days (today e (today_reads c1)) (- days) = Inr start \<and>
          query_costs e (service_query start (today e (today_reads c1))) 3
            (c1\<lparr>today_reads := Suc (today_reads c1)\<rparr>) = (Inr sr, c2) \<and>
          query_costs e (daily_query start (today e (today_reads c1))) 3 c2 = (Inl err, c3) \<longrightarrow>
          get_cost_summary e days c0 = (Inl err, c3))
       \<and> (cache_lookup e forecast_key c0 = (Inr None, c1) \<and>
          end_of_month (today e (today_reads c1)) = Inr eom \<and>
          query_costs e forecast_query 3 (c1\<lparr>today_reads := Suc (today_reads c1)\<rparr>) = (Inl err, c2) \<longrightarrow>
          get_forecast e c0 = (Inl err, c2))"
proof (intro conjI impI)
  show "build_summary sub a b (JObj []) (JObj []) =
           Inr \<lparr>subscription_id = sub, subscription_name = ''virtual-bpm-prod'', period_start = a,
                period_end = b, total_cost = 0, summary_currency = ''USD'', costs_by_service = [],
                daily_costs = []\<rparr>"
    by (rule build_summary_empty)
next
  assume "mr \<le> 0"
  then show "query_costs e q mr s = (Inr (JObj []), s1)"
    by (simp add: query_costs_token [OF tok])
next
  assume a: "0 < mr \<and> (\<forall>i<nat mr. throttled e req (requests s1 + i))"
  define k where "k = nat mr - 1"
  have mr: "nat mr = Suc k" using a by (simp add: k_def)
  have first: "\<forall>i<k. throttled e req (requests s1 + i)" using a mr by simp
  have "k = 0 \<or> int (0 + k) \<le> mr - 1" using mr by linarith
  from attempts_throttled [OF first _ this, of "nat mr"]
  have unroll: "attempts e req mr 0 (nat mr) s1 =
      attempts e req mr k (Suc 0)
        (s1\<lparr>requests := requests s1 + k,
            sleeps := sleeps s1 @ map (delay e req) [requests s1..<requests s1 + k]\<rparr>)"
    by (simp add: mr)
  from a mr have "throttled e req (requests s1 + k)" by simp
  then obtain r where r: "server e (requests s1 + k) req = Responded r" "status_code r = 429"
      "retry_after_seconds r \<noteq> None"
    by (auto simp: throttled_def split: outcome.splits)
  have g: "\<not> int k < mr - 1" using mr by linarith
  have "query_costs e q mr s =
      (Inl (HTTPStatusError r),
       s1\<lparr>requests := requests s1 + nat mr,
          sleeps := sleeps s1 @ map (delay e req) [requests s1..<requests s1 + nat mr - 1]\<rparr>)"
    unfolding query_costs_token [OF tok] req [symmetric] unroll
    by (subst attempts_last_throttled [where r = r]) (use r g in \<open>simp_all add: mr\<close>)
  with r(1) show "\<exists>r. server e (requests s1 + nat mr - 1) req = Responded r \<and>
      query_costs e q mr s =
        (Inl (HTTPStatusError r),
         s1\<lparr>requests := requests s1 + nat mr,
            sleeps := sleeps s1 @ map (delay e req) [requests s1..<requests s1 + nat mr - 1]\<rparr>)"
    by (auto simp: mr)
next
  assume "cache_lookup e (summary_key days) c0 = (Inr None, c1) \<and>
          add_days (today e (today_reads c1)) (- days) = Inr start \<and>
          query_costs e (service_query start (today e (today_reads c1))) 3
            (c1\<lparr>today_reads := Suc (today_reads c1)\<rparr>) = (Inl err, c2)"
  then show "get_cost_summary e days c0 = (Inl err, c2)"
    by (elim conjE) (rule get_cost_summary_service_fails; assumption)
next
  assume "cache_lookup e (summary_key days) c0 = (Inr None, c1) \<and>
          add_days (today e (today_reads c1)) (- days) = Inr start \<and>
          query_costs e (service_query start (today e (today_reads c1))) 3
            (c1\<lparr>today_reads := Suc (today_reads c1)\<rparr>) = (Inr sr, c2) \<and>
          query_costs e (daily_query start (today e (today_reads c1))) 3 c2 = (Inl err, c3)"
  then show "get_cost_summary e days c0 = (Inl err, c3)"
    by (elim conjE) (rule get_cost_summary_daily_fails; assumption)
next
  assume "cache_lookup e forecast_key c0 = (Inr None, c1) \<and>
          end_of_month (today e (today_reads c1)) = Inr eom \<and>
          query_costs e forecast_query 3 (c1\<lparr>today_reads := Suc (today_reads c1)\<rparr>) = (Inl err, c2)"
  then show "get_forecast e c0 = (Inl err, c2)"
    by (elim conjE) (rule get_forecast_query_fails; assumption)
qed

theorem query_costs_exhausted_witness:
  "query_costs always_429 forecast_query 3 (init ''sub'') =
     (Inl (HTTPStatusError \<lparr>status_code = 429, retry_after = None, json_body = None\<rparr>),
      (init ''sub'')\<lparr>token := Some ''t0'', credential_calls := 1, requests := 3, sleeps := [60, 60]\<rparr>)
   \<and> query_costs always_429 forecast_query 0 (init ''sub'') =
     (Inr (JObj []), (init ''sub'')\<lparr>token := Some ''t0'', credential_calls := 1\<rparr>)
   \<and> get_cost_summary always_429 30 (init ''sub'') =
     (Inl (HTTPStatusError \<lparr>status_code = 429, retry_after = None, json_body = None\<rparr>),
      (init ''sub'')\<lparr>today_reads := 1, token := Some ''t0'', credential_calls := 1, requests := 3,
         sleeps := [60, 60]\<rparr>)
   \<and> get_forecast always_429 (init ''sub'') =
     (Inl (HTTPStatusError \<lparr>status_code = 429, retry_after = None, json_body = None\<rparr>),
      (init ''sub'')\<lparr>today_reads := 1, token := Some ''t0'', credential_calls := 1, requests := 3,
         sleeps := [60, 60]\<rparr>)"
proof -
  let ?r = "\<lparr>status_code = 429, retry_after = None, json_body = None\<rparr>"
  let ?t1 = "(init ''sub'')\<lparr>today_reads := Suc 0\<rparr>"
  let ?t2 = "(init ''sub'')\<lparr>today_reads := Suc 0, token := Some ''t0'', credential_calls := 1,
    requests := 3, sleeps := [60, 60]\<rparr>"
  have tok: "get_token always_429 s = (Inr ''t0'', s\<lparr>credential_calls := Suc (credential_calls s),
      token := Some ''t0''\<rparr>)" if "token s = None" for s
    using that by (simp add: get_token_def always_429_def)
  have th: "throttled always_429 rq n" for rq n
    by (simp add: throttled_def always_429_def retry_after_seconds_def)
  have dl: "delay always_429 rq n = 60" for rq n
    by (simp add: delay_def always_429_def retry_after_seconds_def)
  have up: "[0..<2] = [0, Suc 0]"
    by (simp add: upt_rec)
  have srv: "server always_429 n rq = Responded ?r" for n rq
    by (simp add: always_429_def)
  have td: "today always_429 n = Date 2024 1 31" for n
    by (simp add: always_429_def)
  have n0: "token (init ''sub'') = None" "token ?t1 = None"
    by (simp_all add: init_def)
  have fail: "query_costs always_429 q 3 ?t1 = (Inl (HTTPStatusError ?r), ?t2)" for q
    using query_costs_exhausted [OF tok [OF n0(2)] refl, where mr = 3 and q = q] th
    by (auto simp: dl up srv init_def)
  have miss: "cache_lookup always_429 k (init ''sub'') = (Inr None, init ''sub'')" for k
    by (simp add: cache_lookup_def init_def cache_init_def)
  have start: "add_days (today always_429 (today_reads (init ''sub''))) (- 30) = Inr (Date 2024 1 1)"
    unfolding td by code_simp
  have eom: "end_of_month (today always_429 (today_reads (init ''sub''))) = Inr (Date 2024 1 31)"
    unfolding td by code_simp
  have t1: "(init ''sub'')\<lparr>today_reads := Suc (today_reads (init ''sub''))\<rparr> = ?t1"
    by (simp add: init_def)
  from query_costs_exhausted [OF tok [OF n0(1)] refl, where mr = 3 and q = forecast_query] th
  have a: "query_costs always_429 forecast_query 3 (init ''sub'') =
     (Inl (HTTPStatusError ?r),
      (init ''sub'')\<lparr>token := Some ''t0'', credential_calls := 1, requests := 3, sleeps := [60, 60]\<rparr>)"
    by (auto simp: dl up srv init_def)
  from query_costs_exhausted [OF tok [OF n0(1)] refl, where mr = 0 and q = forecast_query]
  have b: "query_costs always_429 forecast_query 0 (init ''sub'') =
     (Inr (JObj []), (init ''sub'')\<lparr>token := Some ''t0'', credential_calls := 1\<rparr>)"
    by (simp add: init_def)
  from query_costs_exhausted [OF tok [OF n0(1)] refl, where days = 30
      and ?c0.0 = "init ''sub''" and ?c1.0 = "init ''sub''" and start = "Date 2024 1 1"
      and err = "HTTPStatusError ?r" and ?c2.0 = ?t2 and eom = "Date 2024 1 31"]
    miss start eom fail
  have c: "get_cost_summary always_429 30 (init ''sub'') = (Inl (HTTPStatusError ?r), ?t2)"
    "get_forecast always_429 (init ''sub'') = (Inl (HTTPStatusError ?r), ?t2)"
    by (simp_all add: t1 td)
  from a b c show ?thesis
    by (simp add: init_def)
qed

text \<open>
  Claim C3. After \<open>k\<close> throttled attempts, \<open>k\<close> below the bound, an answer that is not 429 ends
  the call at once: a 2xx answer yields its parsed body, any other status the status error
  carrying the response. Exactly \<open>k + 1\<close> requests were made, and the sleeps are those the
  \<open>k\<close> throttling responses asked for, 60 seconds where the header is absent.
\<close>

theorem query_costs_retry:
  assumes tok: "get_token e s = (Inr t, s1)"
    and req: "req = \<lparr>url = query_url (svc_subscription_id s1), bearer = t, body = q\<rparr>"
    and k: "k < nat mr"
    and first: "\<forall>i<k. throttled e req (requests s1 + i)"
    and r: "server e (requests s1 + k) req = Responded r"
    and st: "status_code r \<noteq> 429"
  shows "query_costs e q mr s =
           (finish r, s1\<lparr>requests := requests s1 + Suc k,
                        sleeps := sleeps s1 @ map (delay e req) [requests s1..<requests s1 + k]\<rparr>)
       \<and> (200 \<le> status_code r \<and> status_code r < 300 \<longrightarrow>
            finish r = (case json_body r of None \<Rightarrow> Inl JSONDecodeError | Some j \<Rightarrow> Inr j))
       \<and> (\<not> (200 \<le> status_code r \<and> status_code r < 300) \<longrightarrow> finish r = Inl (HTTPStatusError r))
       \<and> (\<forall>i<k. \<exists>r'. server e (requests s1 + i) req = Responded r' \<and> status_code r' = 429 \<and>
              (retry_after r' = None \<longrightarrow> delay e req (requests s1 + i) = 60) \<and>
              (\<forall>v. retry_after r' = Some v \<longrightarrow> py_int v = Some (delay e req (requests s1 + i))) \<and>
              (\<forall>v. retry_after r' = Some v \<and> decimal_integer_string v \<and> int (length v) \<le> max_str_digits
                 \<longrightarrow> delay e req (requests s1 + i) = decimal_number v))"
proof (intro conjI)
  obtain left where left: "nat mr = Suc left" "k \<le> left"
    using k by (cases "nat mr") auto
  have "k = 0 \<or> int (0 + k) \<le> mr - 1" using k by linarith
  from attempts_throttled [OF first _ this, of "nat mr"] left
  have unroll: "attempts e req mr 0 (nat mr) s1 =
      attempts e req mr k (Suc (left - k))
        (s1\<lparr>requests := requests s1 + k,
            sleeps := sleeps s1 @ map (delay e req) [requests s1..<requests s1 + k]\<rparr>)"
    by (simp add: Suc_diff_le)
  show "query_costs e q mr s =
           (finish r, s1\<lparr>requests := requests s1 + Suc k,
                        sleeps := sleeps s1 @ map (delay e req) [requests s1..<requests s1 + k]\<rparr>)"
    unfolding query_costs_token [OF tok] req [symmetric] unroll
    by (subst attempts_answered [where r = r]) (use r st in simp_all)
  show "\<forall>i<k. \<exists>r'. server e (requests s1 + i) req = Responded r' \<and> status_code r' = 429 \<and>
              (retry_after r' = None \<longrightarrow> delay e req (requests s1 + i) = 60) \<and>
              (\<forall>v. retry_after r' = Some v \<longrightarrow> py_int v = Some (delay e req (requests s1 + i))) \<and>
              (\<forall>v. retry_after r' = Some v \<and> decimal_integer_string v \<and> int (length v) \<le> max_str_digits
                 \<longrightarrow> delay e req (requests s1 + i) = decimal_number v)"
  proof (intro allI impI)
    fix i
    assume "i < k"
    with first have "throttled e req (requests s1 + i)"
      by simp
    then obtain r' d where r': "server e (requests s1 + i) req = Responded r'"
        "status_code r' = 429" "retry_after_seconds r' = Some d"
      by (auto simp: throttled_def split: outcome.splits)
    then have "delay e req (requests s1 + i) = d"
      by (simp add: delay_def)
    with r' show "\<exists>r'. server e (requests s1 + i) req = Responded r' \<and> status_code r' = 429 \<and>
              (retry_after r' = None \<longrightarrow> delay e req (requests s1 + i) = 60) \<and>
              (\<forall>v. retry_after r' = Some v \<longrightarrow> py_int v = Some (delay e req (requests s1 + i))) \<and>
              (\<forall>v. retry_after r' = Some v \<and> decimal_integer_string v \<and> int (length v) \<le> max_str_digits
                 \<longrightarrow> delay e req (requests s1 + i) = decimal_number v)"
      by (auto simp: retry_after_seconds_def py_int_decimal split: option.splits)
  qed
qed (simp_all add: finish_def)

theorem query_costs_retry_witness:
  "query_costs retry_once forecast_query 3 (init ''sub'') =
     (Inr (JObj [(''properties'', JObj [(''rows'', JArr [JArr [JFloat 150]])])]),
      (init ''sub'')\<lparr>token := Some ''t0'', credential_calls := 1, requests := 2, sleeps := [5]\<rparr>)"
proof -
  let ?s1 = "(init ''sub'')\<lparr>token := Some ''t0'', credential_calls := 1\<rparr>"
  let ?req = "\<lparr>url = query_url (svc_subscription_id ?s1), bearer = ''t0'', body = forecast_query\<rparr>"
  let ?r = "\<lparr>status_code = 200, retry_after = None,
              json_body = Some (JObj [(''properties'', JObj [(''rows'', JArr [JArr [JFloat 150]])])])\<rparr>"
  have five: "py_int (codes ''5'') = Some 5"
    by code_simp
  have tok: "get_token retry_once (init ''sub'') = (Inr ''t0'', ?s1)"
    by (simp add: get_token_def retry_once_def init_def)
  have th: "\<forall>i<1. throttled retry_once ?req (requests ?s1 + i)"
    by (simp add: throttled_def retry_once_def retry_after_seconds_def five init_def)
  have r: "server retry_once (requests ?s1 + 1) ?req = Responded ?r"
    by (simp add: retry_once_def init_def)
  have dl: "delay retry_once rq 0 = 5" for rq
    by (simp add: delay_def retry_once_def retry_after_seconds_def five)
  from query_costs_retry [OF tok refl _ th r, where mr = 3]
  show ?thesis
    by (simp add: dl finish_def init_def)
qed

text \<open>
  Claim C10, as the code has it. The claim says that every header that is not a string of
  decimal digits makes the call fail. The header is read by \<^verbatim>\<open>int\<close>, which reads more than
  digits: \<^verbatim>\<open>Retry-After: 1_0\<close> is not a string of decimal digits, and the executor sleeps ten
  seconds, sends the request again and returns the body of the answer.
\<close>

theorem retry_after_underscore_counterexample:
  "\<not> decimal_integer_string (codes ''1_0'')
   \<and> py_int (codes ''1_0'') = Some 10
   \<and> fst (query_costs underscore_429 forecast_query 3 (init ''sub''))
       = Inr (JObj [(''properties'', JObj [(''rows'', JArr [JArr [JFloat 150]])])])
   \<and> requests (snd (query_costs underscore_429 forecast_query 3 (init ''sub''))) = 2
   \<and> sleeps (snd (query_costs underscore_429 forecast_query 3 (init ''sub''))) = [10]"
  by code_simp

text \<open>
  Claim C10 (amended). A 429 response whose \<^verbatim>\<open>Retry-After\<close> header is present and is a string
  that \<^verbatim>\<open>int\<close> rejects makes the call fail with \<^verbatim>\<open>ValueError\<close>: no sleep is made for that
  response and no further request is sent, whichever attempt it answers. Every header that
  holds a character other than whitespace, a sign, an underscore or a decimal digit is
  rejected, so an HTTP date is. A header of decimal digits, up to the limit of 4300, is read
  as the number it denotes.
\<close>

theorem retry_after_not_integer:
  assumes tok: "get_token e s = (Inr t, s1)"
    and req: "req = \<lparr>url = query_url (svc_subscription_id s1), bearer = t, body = q\<rparr>"
    and k: "k < nat mr"
    and first: "\<forall>i<k. throttled e req (requests s1 + i)"
    and r: "server e (requests s1 + k) req = Responded r"
    and st: "status_code r = 429"
    and hd: "retry_after r = Some v"
  shows "(py_int v = None \<longrightarrow>
            query_costs e q mr s =
              (Inl ValueError, s1\<lparr>requests := requests s1 + Suc k,
                 sleeps := sleeps s1 @ map (delay e req) [requests s1..<requests s1 + k]\<rparr>))
       \<and> ((\<exists>c \<in> set v. \<not> number_char c) \<longrightarrow> py_int v = None)
       \<and> (decimal_integer_string v \<and> int (length v) \<le> max_str_digits \<longrightarrow>
            py_int v = Some (decimal_number v))"
proof (intro conjI impI)
  assume bad: "py_int v = None"
  obtain left where left: "nat mr = Suc left" "k \<le> left"
    using k by (cases "nat mr") auto
  have "k = 0 \<or> int (0 + k) \<le> mr - 1" using k by linarith
  from attempts_throttled [OF first _ this, of "nat mr"] left
  have unroll: "attempts e req mr 0 (nat mr) s1 =
      attempts e req mr k (Suc (left - k))
        (s1\<lparr>requests := requests s1 + k,
            sleeps := sleeps s1 @ map (delay e req) [requests s1..<requests s1 + k]\<rparr>)"
    by (simp add: Suc_diff_le)
  have "retry_after_seconds r = None"
    using hd bad by (simp add: retry_after_seconds_def)
  then show "query_costs e q mr s =
      (Inl ValueError, s1\<lparr>requests := requests s1 + Suc k,
         sleeps := sleeps s1 @ map (delay e req) [requests s1..<requests s1 + k]\<rparr>)"
    unfolding query_costs_token [OF tok] req [symmetric] unroll
    by (subst attempts_bad_header [where r = r]) (use r st in simp_all)
next
  assume "\<exists>c \<in> set v. \<not> number_char c"
  then show "py_int v = None"
    using py_int_chars [of v] by (cases "py_int v") auto
next
  assume "decimal_integer_string v \<and> int (length v) \<le> max_str_digits"
  then show "py_int v = Some (decimal_number v)"
    by (simp add: py_int_decimal)
qed

theorem retry_after_not_integer_witness:
  "\<not> number_char 0x57
   \<and> py_int (codes ''Wed, 21 Oct 2015 07:28:00 GMT'') = None
   \<and> query_costs http_date_429 forecast_query 3 (init ''sub'') =
     (Inl ValueError, (init ''sub'')\<lparr>token := Some ''t0'', credential_calls := 1, requests := 1\<rparr>)
   \<and> decimal_integer_string (codes ''5'')
   \<and> py_int (codes ''5'') = Some 5"
proof -
  have five: "decimal_integer_string (codes ''5'')" "int (length (codes ''5'')) \<le> max_str_digits"
    "decimal_number (codes ''5'') = 5"
    by (simp_all add: decimal_integer_string_def codes_def max_str_digits_def decimal_number_def)
  have tok5: "get_token retry_once (init ''sub'')
      = (Inr ''t0'', (init ''sub'')\<lparr>token := Some ''t0'', credential_calls := 1\<rparr>)"
    by (simp add: get_token_def retry_once_def init_def)
  have r5: "server retry_once (requests ((init ''sub'')\<lparr>token := Some ''t0'', credential_calls := 1\<rparr>) + 0)
      \<lparr>url = query_url (svc_subscription_id ((init ''sub'')\<lparr>token := Some ''t0'', credential_calls := 1\<rparr>)),
         bearer = ''t0'', body = forecast_query\<rparr>
      = Responded \<lparr>status_code = 429, retry_after = Some (codes ''5''), json_body = None\<rparr>"
    by (simp add: retry_once_def init_def)
  from retry_after_not_integer [OF tok5 refl _ _ r5, where mr = 3 and v = "codes ''5''"] five
  have digits: "py_int (codes ''5'') = Some 5"
    by simp
  let ?s1 = "(init ''sub'')\<lparr>token := Some ''t0'', credential_calls := 1\<rparr>"
  let ?v = "codes ''Wed, 21 Oct 2015 07:28:00 GMT''"
  let ?r = "\<lparr>status_code = 429, retry_after = Some ?v, json_body = None\<rparr>"
  have w: "\<not> number_char 0x57"
    by (simp add: number_char_def to_ascii_def is_space_def ascii_digit_def)
  have "0x57 \<in> set ?v"
    by (simp add: codes_def)
  with w have ex: "\<exists>c \<in> set ?v. \<not> number_char c"
    by blast
  have tok: "get_token http_date_429 (init ''sub'') = (Inr ''t0'', ?s1)"
    by (simp add: get_token_def http_date_429_def init_def)
  have r: "server http_date_429 (requests ?s1 + 0)
      \<lparr>url = query_url (svc_subscription_id ?s1), bearer = ''t0'', body = forecast_query\<rparr> = Responded ?r"
    by (simp add: http_date_429_def)
  from retry_after_not_integer [OF tok refl _ _ r, where mr = 3 and v = ?v] ex w five(1) digits
  show ?thesis
    by (simp add: init_def)
qed

section \<open>The cached token\<close>

lemma bindE_preserves:
  assumes "P s" and "\<And>s. P s \<Longrightarrow> P (snd (m s))" and "\<And>a s. P s \<Longrightarrow> P (snd (f a s))"
  shows "P (snd (bindE m f s))"
proof (cases "m s")
  case (Pair r s')
  with assms(2) [OF assms(1)] have "P s'" by simp
  with Pair assms(3) show ?thesis
    by (cases r) (simp_all add: bindE_def)
qed

lemma case_option_preserves:
  assumes "P s" and "\<And>s. P s \<Longrightarrow> P (snd (g s))" and "\<And>v s. P s \<Longrightarrow> P (snd (f v s))"
  shows "P (snd ((case a of None \<Rightarrow> g | Some v \<Rightarrow> f v) s))"
  using assms by (cases a) simp_all

lemma get_token_cached: "token s = Some t \<Longrightarrow> get_token e s = (Inr t, s)"
  by (simp add: get_token_def)

lemma get_token_result: "get_token e s = (Inr t, s1) \<Longrightarrow> token s1 = Some t"
  by (auto simp: get_token_def split: option.splits)

lemma token_is_attempts: "token_is t n s \<Longrightarrow> token_is t n (snd (attempts e req mr a left s))"
  by (induction e req mr a left s rule: attempts.induct)
    (auto simp: token_is_def Let_def split: outcome.splits option.splits)

lemma token_is_query_costs:
  assumes "token_is t n s"
  shows "token_is t n (snd (query_costs e q mr s))"
proof -
  from assms have "get_token e s = (Inr t, s)"
    by (simp add: token_is_def get_token_cached)
  with assms show ?thesis
    by (simp add: query_costs_def token_is_attempts)
qed

lemma token_is_cache_lookup: "token_is t n s \<Longrightarrow> token_is t n (snd (cache_lookup e k s))"
  by (auto simp: cache_lookup_def token_is_def split: option.splits prod.splits)

lemma token_is_cache_store: "token_is t n s \<Longrightarrow> token_is t n (snd (cache_store e k v s))"
  by (simp add: cache_store_def token_is_def)

lemma token_is_read_today: "token_is t n s \<Longrightarrow> token_is t n (snd (read_today e s))"
  by (simp add: read_today_def token_is_def)

lemma token_is_get_cost_summary:
  "token_is t n s \<Longrightarrow> token_is t n (snd (get_cost_summary e days s))"
  unfolding get_cost_summary_def
  by (erule bindE_preserves [where P = "token_is t n"] case_option_preserves [where P = "token_is t n"]
        token_is_cache_lookup token_is_read_today token_is_query_costs token_is_cache_store
      | simp add: returnE_def liftE_def)+

lemma token_is_get_forecast:
  "token_is t n s \<Longrightarrow> token_is t n (snd (get_forecast e s))"
  unfolding get_forecast_def
  by (erule bindE_preserves [where P = "token_is t n"] case_option_preserves [where P = "token_is t n"]
        token_is_cache_lookup token_is_read_today token_is_query_costs token_is_cache_store
      | simp add: returnE_def liftE_def)+

lemma token_is_perform: "token_is t n s \<Longrightarrow> token_is t n (perform e c s)"
  by (cases c)
    (simp_all add: token_is_query_costs token_is_get_cost_summary token_is_get_forecast,
      simp add: token_is_def get_token_cached)

lemma token_is_run: "token_is t n s \<Longrightarrow> token_is t n (run e cs s)"
  by (induction cs arbitrary: s) (simp_all add: token_is_perform)

text \<open>
  Claim C8. Once \<^verbatim>\<open>_get_token\<close> has returned a token, the stored token is that value; when
  it was absent before, this call fetched it from the credential provider. After any
  sequence of further calls on the service, \<^verbatim>\<open>_get_token\<close> returns the same token and leaves
  the state as it is, and the provider has not been called again.
\<close>

theorem token_never_refreshed:
  assumes "get_token e s = (Inr t, s1)"
  shows "token s1 = Some t
       \<and> (token s = None \<longrightarrow>
            credential e (credential_calls s) = Some t \<and> credential_calls s1 = Suc (credential_calls s))
       \<and> get_token e (run e calls s1) = (Inr t, run e calls s1)
       \<and> token (run e calls s1) = Some t
       \<and> credential_calls (run e calls s1) = credential_calls s1"
proof -
  have s1: "token s1 = Some t"
    using assms by (rule get_token_result)
  then have "token_is t (credential_calls s1) s1"
    by (simp add: token_is_def)
  then have "token_is t (credential_calls s1) (run e calls s1)"
    by (rule token_is_run)
  then have later: "token (run e calls s1) = Some t" "credential_calls (run e calls s1) = credential_calls s1"
    by (simp_all add: token_is_def)
  have "token s = None \<longrightarrow>
      credential e (credential_calls s) = Some t \<and> credential_calls s1 = Suc (credential_calls s)"
    using assms by (auto simp: get_token_def split: option.splits)
  with s1 later show ?thesis
    by (simp add: get_token_cached)
qed

theorem token_never_refreshed_witness:
  "token (init ''sub'') = None
   \<and> get_token retry_once (init ''sub'')
       = (Inr ''t0'', (init ''sub'')\<lparr>token := Some ''t0'', credential_calls := 1\<rparr>)
   \<and> token (run retry_once [GetForecast, GetCostSummary 7, GetToken]
         ((init ''sub'')\<lparr>token := Some ''t0'', credential_calls := 1\<rparr>)) = Some ''t0''
   \<and> credential_calls (run retry_once [GetForecast, GetCostSummary 7, GetToken]
         ((init ''sub'')\<lparr>token := Some ''t0'', credential_calls := 1\<rparr>)) = 1"
proof -
  have tok: "get_token retry_once (init ''sub'')
      = (Inr ''t0'', (init ''sub'')\<lparr>token := Some ''t0'', credential_calls := 1\<rparr>)"
    by (simp add: get_token_def retry_once_def init_def)
  from token_never_refreshed [OF tok, where calls = "[GetForecast, GetCostSummary 7, GetToken]"] tok
  show ?thesis
    by (simp add: init_def)
qed

section \<open>Cache keys\<close>

lemma digit_cases:
  fixes d :: int
  assumes "0 \<le> d" "d < 10"
  shows "d = 0 \<or> d = 1 \<or> d = 2 \<or> d = 3 \<or> d = 4 \<or> d = 5 \<or> d = 6 \<or> d = 7 \<or> d = 8 \<or> d = 9"
  using assms by arith

lemma digit_val_digit_char: "0 \<le> d \<Longrightarrow> d < 10 \<Longrightarrow> digit_val (digit_char d) = Some d"
  using digit_cases [of d] by (auto simp: digit_val_def digit_char_def)

lemma digit_val_minus: "digit_val CHR ''-'' = None"
  by (simp add: digit_val_def)

lemma str_digits_all_digits: "0 \<le> n \<Longrightarrow> c \<in> set (str_digits n) \<Longrightarrow> digit_val c \<noteq> None"
proof (induction n arbitrary: c rule: str_digits.induct)
  case (1 n)
  show ?case
  proof (cases "n < 10")
    case True
    with "1.prems" show ?thesis
      by (simp add: str_digits.simps [of n] digit_val_digit_char)
  next
    case False
    with "1.prems" have "c \<in> set (str_digits (n div 10)) \<or> c = digit_char (n mod 10)"
      by (auto simp: str_digits.simps [of n])
    then show ?thesis
    proof
      assume "c \<in> set (str_digits (n div 10))"
      with "1.IH" [OF False] "1.prems"(1) show ?thesis
        by simp
    next
      assume "c = digit_char (n mod 10)"
      then show ?thesis
        by (simp add: digit_val_digit_char)
    qed
  qed
qed

lemma str_digits_value:
  "0 \<le> n \<Longrightarrow> foldl (\<lambda>a c. 10 * a + the (digit_val c)) 0 (str_digits n) = n"
proof (induction n rule: str_digits.induct)
  case (1 n)
  show ?case
  proof (cases "n < 10")
    case True
    with "1.prems" show ?thesis
      by (simp add: str_digits.simps [of n] digit_val_digit_char)
  next
    case False
    with "1.IH" "1.prems" have "foldl (\<lambda>a c. 10 * a + the (digit_val c)) 0 (str_digits (n div 10)) = n div 10"
      by simp
    with False show ?thesis
      by (simp add: str_digits.simps [of n] digit_val_digit_char)
  qed
qed

lemma str_digits_inj: "0 \<le> a \<Longrightarrow> 0 \<le> b \<Longrightarrow> str_digits a = str_digits b \<Longrightarrow> a = b"
  by (metis str_digits_value)

lemma str_digits_no_minus: "0 \<le> n \<Longrightarrow> str_digits n \<noteq> CHR ''-'' # cs"
  using str_digits_all_digits [of n "CHR ''-''"] by (auto simp: digit_val_minus)

lemma str_int_inj: "str_int a = str_int b \<Longrightarrow> a = b"
  using str_digits_inj [of a b] str_digits_inj [of "- a" "- b"]
    str_digits_no_minus [of a "str_digits (- b)"] str_digits_no_minus [of b "str_digits (- a)"]
  by (auto simp: str_int_def split: if_splits)

lemma summary_key_inj: "summary_key a = summary_key b \<Longrightarrow> a = b"
  by (simp add: summary_key_def str_int_inj)

lemma summary_key_not_forecast: "summary_key d \<noteq> forecast_key"
  by (simp add: summary_key_def forecast_key_def)

lemma ignoresI: "(\<And>x s. m (put_entry k x s) = (fst (m s), put_entry k x (snd (m s)))) \<Longrightarrow> ignores m k"
  by (simp add: ignores_def)

lemma ignoresD: "ignores m k \<Longrightarrow> m (put_entry k x s) = (fst (m s), put_entry k x (snd (m s)))"
  by (simp add: ignores_def)

lemma ignores_bindE:
  assumes "ignores m k" and "\<And>a. ignores (f a) k"
  shows "ignores (bindE m f) k"
proof (rule ignoresI)
  fix x s
  obtain r s' where ms: "m s = (r, s')"
    by (cases "m s")
  with ignoresD [OF assms(1), of x s] have "m (put_entry k x s) = (r, put_entry k x s')"
    by simp
  with ms ignoresD [OF assms(2)] show "bindE m f (put_entry k x s) = (fst (bindE m f s), put_entry k x (snd (bindE m f s)))"
    by (cases r) (simp_all add: bindE_def)
qed

lemma ignores_case_option:
  assumes "ignores g k" and "\<And>v. ignores (f v) k"
  shows "ignores (case a of None \<Rightarrow> g | Some v \<Rightarrow> f v) k"
  using assms by (cases a) simp_all

lemma ignores_returnE: "ignores (returnE a) k"
  by (simp add: ignores_def returnE_def)

lemma ignores_liftE: "ignores (liftE r) k"
  by (simp add: ignores_def liftE_def)

lemma ignores_read_today: "ignores (read_today e) k"
  by (simp add: ignores_def read_today_def put_entry_def)

lemma ignores_get_token: "ignores (get_token e) k"
  by (auto simp: ignores_def get_token_def put_entry_def split: option.splits)

lemma attempts_put_entry:
  "attempts e req mr a left (put_entry k x s) =
     (fst (attempts e req mr a left s), put_entry k x (snd (attempts e req mr a left s)))"
proof (induction e req mr a left s rule: attempts.induct)
  case (1 e req max_retries attempt s)
  show ?case by simp
next
  case (2 e req max_retries attempt left s)
  have rq: "requests (put_entry k x s) = requests s"
    by (simp add: put_entry_def)
  have upd: "(put_entry k x s')\<lparr>requests := n\<rparr> = put_entry k x (s'\<lparr>requests := n\<rparr>)"
    "(put_entry k x s')\<lparr>sleeps := sl\<rparr> = put_entry k x (s'\<lparr>sleeps := sl\<rparr>)"
    "sleeps (put_entry k x s') = sleeps s'" for n sl s'
    by (simp_all add: put_entry_def)
  show ?case
  proof (cases "server e (requests s) req")
    case Raised
    then show ?thesis
      by (simp add: rq upd)
  next
    case (Responded r)
    show ?thesis
    proof (cases "status_code r = 429 \<and> retry_after_seconds r \<noteq> None \<and> int attempt < max_retries - 1")
      case True
      then obtain d where d: "retry_after_seconds r = Some d"
        by auto
      from True have c: "status_code r = 429" "int attempt < max_retries - 1"
        by auto
      from "2.IH" [OF Responded refl c(1) d c(2)] have
        "attempts e req max_retries (Suc attempt) left
           (put_entry k x (s\<lparr>requests := Suc (requests s), sleeps := sleeps s @ [d]\<rparr>)) =
         (fst (attempts e req max_retries (Suc attempt) left
                (s\<lparr>requests := Suc (requests s), sleeps := sleeps s @ [d]\<rparr>)),
          put_entry k x (snd (attempts e req max_retries (Suc attempt) left
                (s\<lparr>requests := Suc (requests s), sleeps := sleeps s @ [d]\<rparr>))))"
        by simp
      with True Responded d show ?thesis
        by (simp add: rq upd Let_def)
    next
      case False
      with Responded show ?thesis
        by (auto simp: rq upd Let_def split: option.splits)
    qed
  qed
qed

lemma ignores_query_costs: "ignores (query_costs e q mr) k"
proof (rule ignoresI)
  fix x s
  obtain r s' where g: "get_token e s = (r, s')"
    by (cases "get_token e s")
  with ignoresD [OF ignores_get_token, of e k x s] have "get_token e (put_entry k x s) = (r, put_entry k x s')"
    by simp
  moreover have "svc_subscription_id (put_entry k x s') = svc_subscription_id s'"
    by (simp add: put_entry_def)
  ultimately show "query_costs e q mr (put_entry k x s) =
      (fst (query_costs e q mr s), put_entry k x (snd (query_costs e q mr s)))"
    using g by (cases r) (simp_all add: query_costs_def attempts_put_entry)
qed

lemma ignores_cache_lookup: "key \<noteq> k \<Longrightarrow> ignores (cache_lookup e key) k"
  by (auto simp: ignores_def cache_lookup_def cache_get_def put_entry_def fun_upd_twist
      split: option.splits)

lemma ignores_cache_store: "key \<noteq> k \<Longrightarrow> ignores (cache_store e key v) k"
  by (auto simp: ignores_def cache_store_def cache_set_def put_entry_def fun_upd_twist)

lemma ignores_subscription:
  "ignores (\<lambda>s. (g (svc_subscription_id s), s)) k"
  by (simp add: ignores_def put_entry_def)

lemma ignores_get_cost_summary: "summary_key days \<noteq> k \<Longrightarrow> ignores (get_cost_summary e days) k"
  unfolding get_cost_summary_def
  by (intro ignores_bindE ignores_case_option ignores_returnE ignores_liftE ignores_read_today
      ignores_query_costs ignores_cache_lookup ignores_cache_store ignores_subscription)

lemma ignores_get_forecast: "forecast_key \<noteq> k \<Longrightarrow> ignores (get_forecast e) k"
  unfolding get_forecast_def
  by (intro ignores_bindE ignores_case_option ignores_returnE ignores_liftE ignores_read_today
      ignores_query_costs ignores_cache_lookup ignores_cache_store ignores_subscription)

lemma ignores_entry:
  assumes "ignores m k"
  shows "entries (cache (snd (m s))) k = entries (cache s) k"
proof -
  have "put_entry k (entries (cache s) k) s = s"
    by (simp add: put_entry_def)
  with ignoresD [OF assms, of "entries (cache s) k" s]
  have "snd (m s) = put_entry k (entries (cache s) k) (snd (m s))"
    by (metis snd_conv)
  then have "entries (cache (snd (m s))) k = entries (cache (put_entry k (entries (cache s) k) (snd (m s)))) k"
    by simp
  then show ?thesis
    by (simp add: put_entry_def)
qed

lemma cache_lookup_result:
  assumes "cache_lookup e k s = (r, s')"
  shows "r = Inr None \<or> (\<exists>v ts. r = Inr (Some v) \<and> entries (cache s') k = Some (ts, v))"
  using assms
  by (auto simp: cache_lookup_def cache_get_def split: option.splits if_splits)

lemma cache_store_entry:
  "entries (cache (snd (cache_store e k v s))) k = Some (now e (now_reads s), v)"
  by (simp add: cache_store_def cache_set_def)

lemma get_cost_summary_populates:
  assumes "get_cost_summary e days s = (Inr v, s')"
  shows "\<exists>ts. entries (cache s') (summary_key days) = Some (ts, v)"
proof -
  obtain r s1 where l: "cache_lookup e (summary_key days) s = (r, s1)"
    by (cases "cache_lookup e (summary_key days) s")
  from cache_lookup_result [OF l] show ?thesis
  proof
    assume "r = Inr None"
    with l assms show ?thesis
      by (auto simp: get_cost_summary_def bindE_def returnE_def liftE_def read_today_def
          cache_store_def cache_set_def split: prod.splits sum.splits)
  next
    assume "\<exists>w ts. r = Inr (Some w) \<and> entries (cache s1) (summary_key days) = Some (ts, w)"
    with l assms show ?thesis
      by (auto simp: get_cost_summary_def bindE_def returnE_def)
  qed
qed

lemma get_cost_summary_miss:
  assumes "cache_lookup e (summary_key days) s = (Inr None, sa)"
    and "add_days (today e (today_reads sa)) (- days) = Inr start"
    and "query_costs e (service_query start (today e (today_reads sa))) 3
           (sa\<lparr>today_reads := Suc (today_reads sa)\<rparr>) = (Inr sr, sb)"
    and "query_costs e (daily_query start (today e (today_reads sa))) 3 sb = (Inr dr, sc)"
    and "build_summary (svc_subscription_id sc) start (today e (today_reads sa)) sr dr = Inr r"
  shows "get_cost_summary e days s =
      (Inr (Summary r),
       sc\<lparr>cache := cache_set (cache sc) (now e (now_reads sc)) (summary_key days) (Summary r),
          now_reads := Suc (now_reads sc)\<rparr>)"
  using assms
  by (simp add: get_cost_summary_def bindE_def read_today_def liftE_def returnE_def cache_store_def)

lemma get_cost_summary_hit:
  assumes "entries (cache s) (summary_key days) = Some (ts, v)"
    and "now e (now_reads s) - ts < of_int (ttl (cache s))"
  shows "get_cost_summary e days s = (Inr v, s\<lparr>now_reads := Suc (now_reads s)\<rparr>)"
  using assms
  by (simp add: get_cost_summary_def bindE_def cache_lookup_def cache_get_def returnE_def)

lemma get_forecast_miss:
  assumes "cache_lookup e forecast_key s = (Inr None, sa)"
    and "end_of_month (today e (today_reads sa)) = Inr eom"
    and "query_costs e forecast_query 3 (sa\<lparr>today_reads := Suc (today_reads sa)\<rparr>) = (Inr result, sb)"
    and "current_cost result = Inr c"
    and "estimate c (day (today e (today_reads sb))) (day eom) = Inr x"
  shows "get_forecast e s =
      (Inr (Forecast \<lparr>fc_subscription_id = svc_subscription_id sb, forecast_period_end = eom,
              estimated_total = x, fc_currency = ''USD''\<rparr>),
       sb\<lparr>today_reads := Suc (today_reads sb),
          cache := cache_set (cache sb) (now e (now_reads sb)) forecast_key
            (Forecast \<lparr>fc_subscription_id = svc_subscription_id sb, forecast_period_end = eom,
               estimated_total = x, fc_currency = ''USD''\<rparr>),
          now_reads := Suc (now_reads sb)\<rparr>)"
  using assms
  by (simp add: get_forecast_def bindE_def read_today_def liftE_def returnE_def cache_store_def)

text \<open>
  Claim C9. Distinct day counts give distinct cache keys, and none of them is the key of the
  forecast. \<^verbatim>\<open>get_cost_summary\<close> for one day count neither reads nor writes the entry of
  another day count or of the forecast, and \<^verbatim>\<open>get_forecast\<close> neither reads nor writes the
  entry of a summary: replacing such an entry before the call changes nothing but that
  entry afterwards, and a later call for another day count leaves the entry as the earlier
  call left it. A summary that is returned is the value held under its own key. When
  \<^verbatim>\<open>get_cost_summary\<close> finds nothing under its key and both queries and the aggregation
  succeed, it returns the summary and stores it under its key with the time of the store;
  when it finds an entry younger than the TTL it returns that entry's value and sends no
  request. \<^verbatim>\<open>get_forecast\<close> stores its result under the key of the forecast.
\<close>

theorem cache_keys_scoped:
  assumes "d1 \<noteq> d2"
  shows "summary_key d1 \<noteq> summary_key d2
       \<and> summary_key d1 \<noteq> forecast_key
       \<and> ignores (get_cost_summary e d1) (summary_key d2)
       \<and> ignores (get_cost_summary e d1) forecast_key
       \<and> ignores (get_forecast e) (summary_key d1)
       \<and> entries (cache (snd (get_cost_summary e d1 s))) (summary_key d2) = entries (cache s) (summary_key d2)
       \<and> entries (cache (snd (get_cost_summary e d1 s))) forecast_key = entries (cache s) forecast_key
       \<and> entries (cache (snd (get_forecast e s))) (summary_key d1) = entries (cache s) (summary_key d1)
       \<and> (\<forall>v s'. get_cost_summary e d1 s = (Inr v, s') \<longrightarrow>
             (\<exists>ts. entries (cache s') (summary_key d1) = Some (ts, v)))
       \<and> entries (cache (snd (get_cost_summary e d2 (snd (get_cost_summary e d1 s))))) (summary_key d1)
           = entries (cache (snd (get_cost_summary e d1 s))) (summary_key d1)
       \<and> entries (cache (snd (get_forecast e (snd (get_cost_summary e d1 s))))) (summary_key d1)
           = entries (cache (snd (get_cost_summary e d1 s))) (summary_key d1)
       \<and> (cache_lookup e (summary_key d1) s = (Inr None, sa) \<and>
          add_days (today e (today_reads sa)) (- d1) = Inr start \<and>
          query_costs e (service_query start (today e (today_reads sa))) 3
            (sa\<lparr>today_reads := Suc (today_reads sa)\<rparr>) = (Inr sr, sb) \<and>
          query_costs e (daily_query start (today e (today_reads sa))) 3 sb = (Inr dr, sc) \<and>
          build_summary (svc_subscription_id sc) start (today e (today_reads sa)) sr dr = Inr r \<longrightarrow>
            get_cost_summary e d1 s =
              (Inr (Summary r),
               sc\<lparr>cache := cache_set (cache sc) (now e (now_reads sc)) (summary_key d1) (Summary r),
                  now_reads := Suc (now_reads sc)\<rparr>)
            \<and> entries (cache (snd (get_cost_summary e d1 s))) (summary_key d1)
                = Some (now e (now_reads sc), Summary r)
            \<and> entries (cache (snd (get_cost_summary e d1 s))) (summary_key d2)
                = entries (cache sc) (summary_key d2))
       \<and> (entries (cache s) (summary_key d1) = Some (ts, v) \<and>
          now e (now_reads s) - ts < of_int (ttl (cache s)) \<longrightarrow>
            get_cost_summary e d1 s = (Inr v, s\<lparr>now_reads := Suc (now_reads s)\<rparr>))
       \<and> (cache_lookup e forecast_key s = (Inr None, sa) \<and>
          end_of_month (today e (today_reads sa)) = Inr eom \<and>
          query_costs e forecast_query 3 (sa\<lparr>today_reads := Suc (today_reads sa)\<rparr>) = (Inr result, sb) \<and>
          current_cost result = Inr c \<and>
          estimate c (day (today e (today_reads sb))) (day eom) = Inr x \<longrightarrow>
            entries (cache (snd (get_forecast e s))) forecast_key
              = Some (now e (now_reads sb),
                   Forecast \<lparr>fc_subscription_id = svc_subscription_id sb, forecast_period_end = eom,
                     estimated_total = x, fc_currency = ''USD''\<rparr>)
            \<and> entries (cache (snd (get_forecast e s))) (summary_key d1)
                = entries (cache sb) (summary_key d1))"
proof -
  from assms have keys: "summary_key d1 \<noteq> summary_key d2" "summary_key d2 \<noteq> summary_key d1"
    using summary_key_inj by blast+
  have fk: "summary_key d1 \<noteq> forecast_key" "forecast_key \<noteq> summary_key d1"
    using summary_key_not_forecast [of d1] by simp_all
  note a = ignores_get_cost_summary [OF keys(1), of e]
  note a' = ignores_get_cost_summary [OF keys(2), of e]
  note b = ignores_get_cost_summary [OF fk(1), of e]
  note c = ignores_get_forecast [OF fk(2), of e]
  have first: "summary_key d1 \<noteq> summary_key d2
       \<and> summary_key d1 \<noteq> forecast_key
       \<and> ignores (get_cost_summary e d1) (summary_key d2)
       \<and> ignores (get_cost_summary e d1) forecast_key
       \<and> ignores (get_forecast e) (summary_key d1)
       \<and> entries (cache (snd (get_cost_summary e d1 s))) (summary_key d2) = entries (cache s) (summary_key d2)
       \<and> entries (cache (snd (get_cost_summary e d1 s))) forecast_key = entries (cache s) forecast_key
       \<and> entries (cache (snd (get_forecast e s))) (summary_key d1) = entries (cache s) (summary_key d1)
       \<and> (\<forall>v s'. get_cost_summary e d1 s = (Inr v, s') \<longrightarrow>
             (\<exists>ts. entries (cache s') (summary_key d1) = Some (ts, v)))"
    using keys(1) fk(1) a b c ignores_entry [OF a, of s] ignores_entry [OF b, of s] ignores_entry [OF c, of s]
    by (simp add: get_cost_summary_populates)
  have later: "entries (cache (snd (get_cost_summary e d2 (snd (get_cost_summary e d1 s))))) (summary_key d1)
           = entries (cache (snd (get_cost_summary e d1 s))) (summary_key d1)"
    "entries (cache (snd (get_forecast e (snd (get_cost_summary e d1 s))))) (summary_key d1)
           = entries (cache (snd (get_cost_summary e d1 s))) (summary_key d1)"
    by (rule ignores_entry [OF a'], rule ignores_entry [OF c])
  have miss: "get_cost_summary e d1 s =
              (Inr (Summary r),
               sc\<lparr>cache := cache_set (cache sc) (now e (now_reads sc)) (summary_key d1) (Summary r),
                  now_reads := Suc (now_reads sc)\<rparr>)
            \<and> entries (cache (snd (get_cost_summary e d1 s))) (summary_key d1)
                = Some (now e (now_reads sc), Summary r)
            \<and> entries (cache (snd (get_cost_summary e d1 s))) (summary_key d2)
                = entries (cache sc) (summary_key d2)"
    if h: "cache_lookup e (summary_key d1) s = (Inr None, sa) \<and>
          add_days (today e (today_reads sa)) (- d1) = Inr start \<and>
          query_costs e (service_query start (today e (today_reads sa))) 3
            (sa\<lparr>today_reads := Suc (today_reads sa)\<rparr>) = (Inr sr, sb) \<and>
          query_costs e (daily_query start (today e (today_reads sa))) 3 sb = (Inr dr, sc) \<and>
          build_summary (svc_subscription_id sc) start (today e (today_reads sa)) sr dr = Inr r"
  proof -
    from h have "get_cost_summary e d1 s =
        (Inr (Summary r),
         sc\<lparr>cache := cache_set (cache sc) (now e (now_reads sc)) (summary_key d1) (Summary r),
            now_reads := Suc (now_reads sc)\<rparr>)"
      by (elim conjE) (rule get_cost_summary_miss; assumption)
    with keys(2) show ?thesis
      by (simp add: cache_set_def)
  qed
  have hit: "get_cost_summary e d1 s = (Inr v, s\<lparr>now_reads := Suc (now_reads s)\<rparr>)"
    if "entries (cache s) (summary_key d1) = Some (ts, v) \<and>
        now e (now_reads s) - ts < of_int (ttl (cache s))"
    using that by (elim conjE) (rule get_cost_summary_hit; assumption)
  have fc: "entries (cache (snd (get_forecast e s))) forecast_key
              = Some (now e (now_reads sb),
                   Forecast \<lparr>fc_subscription_id = svc_subscription_id sb, forecast_period_end = eom,
                     estimated_total = x, fc_currency = ''USD''\<rparr>)
            \<and> entries (cache (snd (get_forecast e s))) (summary_key d1)
                = entries (cache sb) (summary_key d1)"
    if h: "cache_lookup e forecast_key s = (Inr None, sa) \<and>
          end_of_month (today e (today_reads sa)) = Inr eom \<and>
          query_costs e forecast_query 3 (sa\<lparr>today_reads := Suc (today_reads sa)\<rparr>) = (Inr result, sb) \<and>
          current_cost result = Inr c \<and>
          estimate c (day (today e (today_reads sb))) (day eom) = Inr x"
  proof -
    from h have "get_forecast e s =
      (Inr (Forecast \<lparr>fc_subscription_id = svc_subscription_id sb, forecast_period_end = eom,
              estimated_total = x, fc_currency = ''USD''\<rparr>),
       sb\<lparr>today_reads := Suc (today_reads sb),
          cache := cache_set (cache sb) (now e (now_reads sb)) forecast_key
            (Forecast \<lparr>fc_subscription_id = svc_subscription_id sb, forecast_period_end = eom,
               estimated_total = x, fc_currency = ''USD''\<rparr>),
          now_reads := Suc (now_reads sb)\<rparr>)"
      by (elim conjE) (rule get_forecast_miss; assumption)
    with fk(1) show ?thesis
      by (simp add: cache_set_def)
  qed
  from first later miss hit fc show ?thesis
    by blast
qed

theorem cache_keys_scoped_witness:
  "summary_key 30 = ''costs_30'' \<and> summary_key 7 = ''costs_7''
   \<and> fst (get_cost_summary tenths 30 (init ''sub'')) =
       Inr (Summary \<lparr>subscription_id = ''sub'', subscription_name = ''virtual-bpm-prod'',
         period_start = Date 2024 1 1, period_end = Date 2024 1 31,
         total_cost = 1351079888211149 / 2251799813685248, summary_currency = ''USD'',
         costs_by_service = [\<lparr>service_name = ''C'', cost = f0_3, currency = ''USD''\<rparr>,
                             \<lparr>service_name = ''B'', cost = f0_2, currency = ''USD''\<rparr>,
                             \<lparr>service_name = ''A'', cost = f0_1, currency = ''USD''\<rparr>],
         daily_costs = []\<rparr>)
   \<and> entries (cache (snd (get_cost_summary tenths 7 (snd (get_cost_summary tenths 30 (init ''sub''))))))
       ''costs_30'' =
       Some (0, Summary \<lparr>subscription_id = ''sub'', subscription_name = ''virtual-bpm-prod'',
         period_start = Date 2024 1 1, period_end = Date 2024 1 31,
         total_cost = 1351079888211149 / 2251799813685248, summary_currency = ''USD'',
         costs_by_service = [\<lparr>service_name = ''C'', cost = f0_3, currency = ''USD''\<rparr>,
                             \<lparr>service_name = ''B'', cost = f0_2, currency = ''USD''\<rparr>,
                             \<lparr>service_name = ''A'', cost = f0_1, currency = ''USD''\<rparr>],
         daily_costs = []\<rparr>)
   \<and> entries (cache (snd (get_cost_summary tenths 7 (snd (get_cost_summary tenths 30 (init ''sub''))))))
       ''costs_7'' =
       Some (0, Summary \<lparr>subscription_id = ''sub'', subscription_name = ''virtual-bpm-prod'',
         period_start = Date 2024 1 24, period_end = Date 2024 1 31,
         total_cost = 0, summary_currency = ''USD'', costs_by_service = [], daily_costs = []\<rparr>)"
proof -
  let ?r = "\<lparr>subscription_id = ''sub'', subscription_name = ''virtual-bpm-prod'',
         period_start = Date 2024 1 1, period_end = Date 2024 1 31,
         total_cost = 1351079888211149 / 2251799813685248, summary_currency = ''USD'',
         costs_by_service = [\<lparr>service_name = ''C'', cost = f0_3, currency = ''USD''\<rparr>,
                             \<lparr>service_name = ''B'', cost = f0_2, currency = ''USD''\<rparr>,
                             \<lparr>service_name = ''A'', cost = f0_1, currency = ''USD''\<rparr>],
         daily_costs = []\<rparr>"
  let ?sb = "(init ''sub'')\<lparr>today_reads := Suc 0, token := Some ''t0'', credential_calls := 1,
    requests := 1\<rparr>"
  let ?sc = "(init ''sub'')\<lparr>today_reads := Suc 0, token := Some ''t0'', credential_calls := 1,
    requests := 2\<rparr>"
  have k: "summary_key 30 = ''costs_30''" "summary_key 7 = ''costs_7''"
    by code_simp+
  have ne: "(30::int) \<noteq> 7"
    by simp
  have td: "today tenths n = Date 2024 1 31" for n
    by (simp add: tenths_def)
  have nw: "now tenths n = 0" for n
    by (simp add: tenths_def)
  have miss: "cache_lookup tenths key (init ''sub'') = (Inr None, init ''sub'')" for key
    by (simp add: cache_lookup_def init_def cache_init_def)
  have start: "add_days (today tenths (today_reads (init ''sub''))) (- 30) = Inr (Date 2024 1 1)"
    unfolding td by code_simp
  have q1: "query_costs tenths q 3 ((init ''sub'')\<lparr>today_reads := Suc (today_reads (init ''sub''))\<rparr>)
      = (Inr tenths_rows, ?sb)" for q
    by (simp add: query_costs_def get_token_def tenths_def init_def finish_def eval_nat_numeral)
  have q2: "query_costs tenths q 3 ?sb = (Inr (JObj []), ?sc)" for q
    by (simp add: query_costs_def get_token_def tenths_def init_def finish_def eval_nat_numeral)
  have b: "build_summary (svc_subscription_id ?sc) (Date 2024 1 1) (today tenths (today_reads (init ''sub'')))
      tenths_rows (JObj []) = Inr ?r"
    unfolding td by (simp add: init_def) code_simp
  have e7: "entries (cache (snd (get_cost_summary tenths 7 (snd (get_cost_summary tenths 30 (init ''sub''))))))
       ''costs_7'' =
       Some (0, Summary \<lparr>subscription_id = ''sub'', subscription_name = ''virtual-bpm-prod'',
         period_start = Date 2024 1 24, period_end = Date 2024 1 31,
         total_cost = 0, summary_currency = ''USD'', costs_by_service = [], daily_costs = []\<rparr>)"
    by code_simp
  have h: "cache_lookup tenths (summary_key 30) (init ''sub'') = (Inr None, init ''sub'') \<and>
      add_days (today tenths (today_reads (init ''sub''))) (- 30) = Inr (Date 2024 1 1) \<and>
      query_costs tenths (service_query (Date 2024 1 1) (today tenths (today_reads (init ''sub'')))) 3
        ((init ''sub'')\<lparr>today_reads := Suc (today_reads (init ''sub''))\<rparr>) = (Inr tenths_rows, ?sb) \<and>
      query_costs tenths (daily_query (Date 2024 1 1) (today tenths (today_reads (init ''sub'')))) 3 ?sb
        = (Inr (JObj []), ?sc) \<and>
      build_summary (svc_subscription_id ?sc) (Date 2024 1 1) (today tenths (today_reads (init ''sub'')))
        tenths_rows (JObj []) = Inr ?r"
    using miss start q1 q2 b by simp
  note t = cache_keys_scoped [OF ne, where e = tenths and s = "init ''sub''" and sa = "init ''sub''"
      and start = "Date 2024 1 1" and sr = tenths_rows and sb = ?sb and dr = "JObj []" and sc = ?sc
      and r = ?r and ts = 0 and v = "Summary ?r" and eom = "Date 2024 1 31" and result = "JObj []"
      and c = JNull and x = 0]
  from t h have got: "get_cost_summary tenths 30 (init ''sub'') =
      (Inr (Summary ?r),
       ?sc\<lparr>cache := cache_set (cache ?sc) (now tenths (now_reads ?sc)) (summary_key 30) (Summary ?r),
          now_reads := Suc (now_reads ?sc)\<rparr>)"
    by blast
  from t h have e30: "entries (cache (snd (get_cost_summary tenths 30 (init ''sub'')))) (summary_key 30)
       = Some (now tenths (now_reads ?sc), Summary ?r)"
    by blast
  from t have later: "entries (cache (snd (get_cost_summary tenths 7 (snd (get_cost_summary tenths 30 (init ''sub''))))))
       (summary_key 30) = entries (cache (snd (get_cost_summary tenths 30 (init ''sub'')))) (summary_key 30)"
    by blast
  have "fst (get_cost_summary tenths 30 (init ''sub'')) = Inr (Summary ?r)"
    by (simp only: got fst_conv)
  moreover have "entries (cache (snd (get_cost_summary tenths 7 (snd (get_cost_summary tenths 30 (init ''sub''))))))
       ''costs_30'' = Some (0, Summary ?r)"
    using later e30 by (simp only: k nw)
  ultimately show ?thesis
    using k e7 by simp
qed

section \<open>Properties of the aggregator\<close>

lemma service_loop_result:
  "service_loop rows acc t = Inr (out, tot) \<Longrightarrow>
   \<exists>new. out = acc @ new \<and> map service_row rows = map Inr new \<and> tot = foldl fadd t (map cost new)"
proof (induction rows arbitrary: acc t)
  case Nil
  then show ?case by simp
next
  case (Cons row rows)
  then obtain entry where entry: "service_row row = Inr entry"
    and rest: "service_loop rows (acc @ [entry]) (fadd t (cost entry)) = Inr (out, tot)"
    by (auto split: sum.splits)
  from Cons.IH [OF rest] obtain new where "out = (acc @ [entry]) @ new"
      "map service_row rows = map Inr new" "tot = foldl fadd (fadd t (cost entry)) (map cost new)"
    by blast
  with entry have "out = acc @ (entry # new) \<and> map service_row (row # rows) = map Inr (entry # new)
      \<and> tot = foldl fadd t (map cost (entry # new))"
    by simp
  then show ?case by blast
qed

lemma daily_loop_result:
  "daily_loop rows acc = Inr out \<Longrightarrow> \<exists>new. out = acc @ new \<and> map daily_row rows = map Inr new"
proof (induction rows arbitrary: acc)
  case Nil
  then show ?case by simp
next
  case (Cons row rows)
  then obtain entry where entry: "daily_row row = Inr entry"
    and rest: "daily_loop rows (acc @ [entry]) = Inr out"
    by (auto split: sum.splits)
  from Cons.IH [OF rest] obtain new where "out = (acc @ [entry]) @ new" "map daily_row rows = map Inr new"
    by blast
  with entry have "out = acc @ (entry # new) \<and> map daily_row (row # rows) = map Inr (entry # new)"
    by simp
  then show ?case by blast
qed

lemma build_summary_parts:
  assumes "build_summary sub a b sr dr = Inr r"
  shows "\<exists>srows entries drows days.
      bindR (result_rows sr) iterate = Inr srows \<and> map service_row srows = map Inr entries \<and>
      bindR (result_rows dr) iterate = Inr drows \<and> map daily_row drows = map Inr days \<and>
      r = \<lparr>subscription_id = sub, subscription_name = ''virtual-bpm-prod'', period_start = a,
           period_end = b, total_cost = foldl fadd 0 (map cost entries), summary_currency = ''USD'',
           costs_by_service = sort_reverse cost entries,
           daily_costs = sort_key (\<lambda>x. date_key (dc_date x)) days\<rparr>"
proof -
  from assms obtain srows0 srows by_service tot drows0 drows daily where
    s: "result_rows sr = Inr srows0" "iterate srows0 = Inr srows"
       "service_loop srows [] 0 = Inr (by_service, tot)"
    and d: "result_rows dr = Inr drows0" "iterate drows0 = Inr drows" "daily_loop drows [] = Inr daily"
    and r: "r = \<lparr>subscription_id = sub, subscription_name = ''virtual-bpm-prod'', period_start = a,
           period_end = b, total_cost = tot, summary_currency = ''USD'',
           costs_by_service = sort_reverse cost by_service,
           daily_costs = sort_key (\<lambda>x. date_key (dc_date x)) daily\<rparr>"
    by (auto simp: build_summary_def bindR_def split: sum.splits prod.splits)
  from service_loop_result [OF s(3)] have "map service_row srows = map Inr by_service"
      "tot = foldl fadd 0 (map cost by_service)"
    by auto
  moreover from daily_loop_result [OF d(3)] have "map daily_row drows = map Inr daily"
    by auto
  ultimately show ?thesis
    using s d r by (auto simp: bindR_def)
qed

lemma sort_reverse_mset: "mset (sort_reverse f xs) = mset xs"
  by (simp add: sort_reverse_def)

lemma sort_reverse_sorted: "sorted_wrt (\<lambda>x y. f y \<le> f x) (sort_reverse f xs)"
  using sorted_sort_key [of f "rev xs"]
  by (simp add: sort_reverse_def sorted_wrt_rev sorted_map)

lemma sort_reverse_stable: "filter (\<lambda>x. f x = k) (sort_reverse f xs) = filter (\<lambda>x. f x = k) xs"
  by (simp add: sort_reverse_def rev_filter [symmetric] sort_key_stable)

lemma map_Inr_inj: "map Inr xs = map Inr ys \<Longrightarrow> xs = ys"
  by (simp add: inj_map_eq_map)

text \<open>
  Claim C4, as the code has it. The claim says that the total equals the sum of the costs
  listed in \<^verbatim>\<open>costs_by_service\<close>, exactly. The total is accumulated while the rows are read,
  in the order the API returned them; the list is sorted afterwards. Float addition
  depends on the order: for rows costing 0.1, 0.2 and 0.3 the total is 0.6000000000000001,
  while the costs of the sorted list (0.3, 0.2, 0.1) add up to 0.6, whether they are added
  one by one or the exact sum is rounded once.
\<close>

theorem total_cost_sum_counterexample:
  "fst (get_cost_summary tenths 30 (init ''sub'')) =
     Inr (Summary \<lparr>subscription_id = ''sub'', subscription_name = ''virtual-bpm-prod'',
       period_start = Date 2024 1 1, period_end = Date 2024 1 31,
       total_cost = 1351079888211149 / 2251799813685248, summary_currency = ''USD'',
       costs_by_service = [\<lparr>service_name = ''C'', cost = f0_3, currency = ''USD''\<rparr>,
                           \<lparr>service_name = ''B'', cost = f0_2, currency = ''USD''\<rparr>,
                           \<lparr>service_name = ''A'', cost = f0_1, currency = ''USD''\<rparr>],
       daily_costs = []\<rparr>)
   \<and> py_sum [f0_3, f0_2, f0_1] = 5404319552844595 / 9007199254740992
   \<and> rnd (f0_3 + f0_2 + f0_1) = 5404319552844595 / 9007199254740992
   \<and> (1351079888211149 / 2251799813685248 :: rat) \<noteq> 5404319552844595 / 9007199254740992"
  by code_simp

text \<open>
  Claim C4 (amended). The total is the running float sum, from 0, of the costs of the
  service rows in the order of the rows. The sorted list holds exactly the entries of those
  rows, so in exact arithmetic the two sums agree. The daily rows play no role: another
  daily result gives the same total and the same list.
\<close>

theorem total_cost_running_sum:
  assumes "build_summary sub a b sr dr = Inr r"
  shows "\<exists>rows entries.
      bindR (result_rows sr) iterate = Inr rows \<and> map service_row rows = map Inr entries
      \<and> total_cost r = py_sum (map cost entries)
      \<and> mset (costs_by_service r) = mset entries
      \<and> sum_list (map cost (costs_by_service r)) = sum_list (map cost entries)
      \<and> (\<forall>dr' r'. build_summary sub a b sr dr' = Inr r' \<longrightarrow>
            total_cost r' = total_cost r \<and> costs_by_service r' = costs_by_service r)"
proof -
  from build_summary_parts [OF assms] obtain rows entries where
    rows: "bindR (result_rows sr) iterate = Inr rows" "map service_row rows = map Inr entries"
    and t: "total_cost r = foldl fadd 0 (map cost entries)"
    and c: "costs_by_service r = sort_reverse cost entries"
    by auto
  have m: "mset (costs_by_service r) = mset entries"
    by (simp add: c sort_reverse_mset)
  then have "mset (map cost (costs_by_service r)) = mset (map cost entries)"
    by simp
  then have sums: "sum_list (map cost (costs_by_service r)) = sum_list (map cost entries)"
    by (metis sum_mset_sum_list)
  have "total_cost r' = total_cost r \<and> costs_by_service r' = costs_by_service r"
    if "build_summary sub a b sr dr' = Inr r'" for dr' r'
  proof -
    from build_summary_parts [OF that] obtain rows' entries' where
      rows': "bindR (result_rows sr) iterate = Inr rows'" "map service_row rows' = map Inr entries'"
      and t': "total_cost r' = foldl fadd 0 (map cost entries')"
      and c': "costs_by_service r' = sort_reverse cost entries'"
      by auto
    from rows rows' have "entries' = entries"
      by (simp add: map_Inr_inj)
    with t t' c c' show ?thesis
      by simp
  qed
  with rows t m sums show ?thesis
    by (auto simp: py_sum_def)
qed

theorem total_cost_running_sum_witness:
  "\<exists>rows entries.
      bindR (result_rows tenths_rows) iterate = Inr rows \<and> map service_row rows = map Inr entries
      \<and> total_cost \<lparr>subscription_id = ''sub'', subscription_name = ''virtual-bpm-prod'',
            period_start = Date 2024 1 1, period_end = Date 2024 1 31,
            total_cost = 1351079888211149 / 2251799813685248, summary_currency = ''USD'',
            costs_by_service = [\<lparr>service_name = ''C'', cost = f0_3, currency = ''USD''\<rparr>,
                                \<lparr>service_name = ''B'', cost = f0_2, currency = ''USD''\<rparr>,
                                \<lparr>service_name = ''A'', cost = f0_1, currency = ''USD''\<rparr>],
            daily_costs = []\<rparr> = py_sum (map cost entries)"
proof -
  have "build_summary ''sub'' (Date 2024 1 1) (Date 2024 1 31) tenths_rows (JObj []) =
    Inr \<lparr>subscription_id = ''sub'', subscription_name = ''virtual-bpm-prod'',
            period_start = Date 2024 1 1, period_end = Date 2024 1 31,
            total_cost = 1351079888211149 / 2251799813685248, summary_currency = ''USD'',
            costs_by_service = [\<lparr>service_name = ''C'', cost = f0_3, currency = ''USD''\<rparr>,
                                \<lparr>service_name = ''B'', cost = f0_2, currency = ''USD''\<rparr>,
                                \<lparr>service_name = ''A'', cost = f0_1, currency = ''USD''\<rparr>],
            daily_costs = []\<rparr>"
    by code_simp
  from total_cost_running_sum [OF this] show ?thesis
    by blast
qed

text \<open>
  Claim C5. The list \<^verbatim>\<open>costs_by_service\<close> is sorted by cost, descending, for every result the
  aggregator produces; it holds exactly the entries of the service rows, and the entries of
  any one cost appear in the order of their rows. Costs are compared as numbers, so
  negative costs sort last.
\<close>

theorem costs_by_service_sorted:
  assumes "build_summary sub a b sr dr = Inr r"
  shows "sorted_wrt (\<lambda>x y. cost y \<le> cost x) (costs_by_service r)
       \<and> (\<exists>rows entries.
            bindR (result_rows sr) iterate = Inr rows \<and> map service_row rows = map Inr entries
            \<and> mset (costs_by_service r) = mset entries
            \<and> (\<forall>c. filter (\<lambda>x. cost x = c) (costs_by_service r) = filter (\<lambda>x. cost x = c) entries))"
proof -
  from build_summary_parts [OF assms] obtain rows entries where
    rows: "bindR (result_rows sr) iterate = Inr rows" "map service_row rows = map Inr entries"
    and c: "costs_by_service r = sort_reverse cost entries"
    by auto
  have "sorted_wrt (\<lambda>x y. cost y \<le> cost x) (costs_by_service r)"
    by (simp add: c sort_reverse_sorted)
  moreover have "mset (costs_by_service r) = mset entries"
    by (simp add: c sort_reverse_mset)
  moreover have "filter (\<lambda>x. cost x = k) (costs_by_service r) = filter (\<lambda>x. cost x = k) entries" for k
    by (simp add: c sort_reverse_stable)
  ultimately show ?thesis
    using rows by blast
qed

theorem costs_by_service_sorted_witness:
  "build_summary ''sub'' (Date 2024 1 1) (Date 2024 1 31) credit_rows (JObj []) =
     Inr \<lparr>subscription_id = ''sub'', subscription_name = ''virtual-bpm-prod'',
          period_start = Date 2024 1 1, period_end = Date 2024 1 31,
          total_cost = 14, summary_currency = ''USD'',
          costs_by_service = [\<lparr>service_name = ''C'', cost = 7, currency = ''USD''\<rparr>,
                              \<lparr>service_name = ''A'', cost = 5, currency = ''USD''\<rparr>,
                              \<lparr>service_name = ''B'', cost = 5, currency = ''USD''\<rparr>,
                              \<lparr>service_name = ''Credit'', cost = - 3, currency = ''EUR''\<rparr>],
          daily_costs = []\<rparr>
   \<and> sorted_wrt (\<lambda>x y. cost y \<le> cost x)
        [\<lparr>service_name = ''C'', cost = 7, currency = ''USD''\<rparr>,
         \<lparr>service_name = ''A'', cost = 5, currency = ''USD''\<rparr>,
         \<lparr>service_name = ''B'', cost = 5, currency = ''USD''\<rparr>,
         \<lparr>service_name = ''Credit'', cost = - 3, currency = ''EUR''\<rparr>]"
proof -
  have h: "build_summary ''sub'' (Date 2024 1 1) (Date 2024 1 31) credit_rows (JObj []) =
     Inr \<lparr>subscription_id = ''sub'', subscription_name = ''virtual-bpm-prod'',
          period_start = Date 2024 1 1, period_end = Date 2024 1 31,
          total_cost = 14, summary_currency = ''USD'',
          costs_by_service = [\<lparr>service_name = ''C'', cost = 7, currency = ''USD''\<rparr>,
                              \<lparr>service_name = ''A'', cost = 5, currency = ''USD''\<rparr>,
                              \<lparr>service_name = ''B'', cost = 5, currency = ''USD''\<rparr>,
                              \<lparr>service_name = ''Credit'', cost = - 3, currency = ''EUR''\<rparr>],
          daily_costs = []\<rparr>"
    by code_simp
  from costs_by_service_sorted [OF h] h show ?thesis
    by simp
qed

section \<open>Dates of the daily rows\<close>





































section \<open>Properties of the forecast calculator\<close>

lemma month_cases:
  fixes m :: int
  assumes "1 \<le> m" "m \<le> 12"
  shows "m = 1 \<or> m = 2 \<or> m = 3 \<or> m = 4 \<or> m = 5 \<or> m = 6 \<or> m = 7 \<or> m = 8 \<or> m = 9 \<or> m = 10
    \<or> m = 11 \<or> m = 12"
  using assms by arith

lemma step_days_4: "step_days f 4 dt = bindR (f dt) (\<lambda>a. bindR (f a) (\<lambda>b. bindR (f b) f))"
  by (simp add: eval_nat_numeral bindR_def split: sum.splits)

lemma end_of_month_date:
  assumes "1 \<le> y" "y \<le> 9999" "1 \<le> m" "m \<le> 12" "\<not> (y = 9999 \<and> m = 12)"
  shows "end_of_month (Date y m d) = Inr (Date y m (days_in_month y m))"
  using month_cases [OF assms(3,4)] assms
  by (elim disjE)
    (simp_all add: end_of_month_def replace_day_def mk_date_def valid_date_def add_days_def
      step_days_4 bindR_def next_day_def prev_day_def days_in_month_def)

lemma end_of_month_overflow: "end_of_month (Date 9999 12 d) = Inl OverflowError"
  by (simp add: end_of_month_def replace_day_def mk_date_def valid_date_def add_days_def
      step_days_4 bindR_def next_day_def days_in_month_def)

lemma get_forecast_fresh:
  assumes miss: "entries (cache s) forecast_key = None"
    and eom: "end_of_month (today e (today_reads s)) = Inr eom"
    and q: "query_costs e forecast_query 3 (s\<lparr>today_reads := Suc (today_reads s)\<rparr>) = (Inr result, s1)"
    and c: "current_cost result = Inr c"
    and est: "estimate c (day (today e (today_reads s1))) (day eom) = Inr x"
  shows "fst (get_forecast e s) =
      Inr (Forecast \<lparr>fc_subscription_id = svc_subscription_id s1, forecast_period_end = eom,
             estimated_total = x, fc_currency = ''USD''\<rparr>)"
  using assms
  by (simp add: get_forecast_def bindE_def cache_lookup_def read_today_def liftE_def returnE_def
      cache_store_def)

lemma rhe_nearest:
  "\<bar>y - of_int (rhe y)\<bar> \<le> 1 / 2" "\<bar>y - of_int (rhe y)\<bar> = 1 / 2 \<Longrightarrow> even (rhe y)"
proof -
  define f where "f = \<lfloor>y\<rfloor>"
  define d where "d = y - of_int f"
  have d: "0 \<le> d" "d < 1"
    unfolding d_def f_def by linarith+
  have y: "y = of_int f + d"
    by (simp add: d_def)
  define k where "k = rhe y"
  have k: "k = (if d < 1 / 2 then f else if 1 / 2 < d then f + 1 else if even f then f else f + 1)"
    by (simp add: k_def rhe_def Let_def f_def d_def)
  have "\<bar>of_int f + d - of_int k\<bar> \<le> 1 / 2"
    using d by (auto simp: k abs_if)
  then show "\<bar>y - of_int (rhe y)\<bar> \<le> 1 / 2"
    by (simp only: y [symmetric] k_def)
  have "\<bar>of_int f + d - of_int k\<bar> = 1 / 2 \<Longrightarrow> even k"
    using d by (auto simp: k abs_if split: if_splits)
  then show "\<bar>y - of_int (rhe y)\<bar> = 1 / 2 \<Longrightarrow> even (rhe y)"
    by (simp only: y [symmetric] k_def)
qed

lemma round2_nearest: "\<exists>k. round2 x = rnd (of_int k / 100) \<and> nearest_int k (x * 100)"
  unfolding round2_def nearest_int_def using rhe_nearest [of "x * 100"] by blast

text \<open>
  Claim C7. For a date of the calendar (December 9999 apart, where the date arithmetic
  overflows) the day-28-plus-4-days computation yields the last day of that date's month, so
  its day is the length of the month. With a positive day of the month the estimate is
  \<^verbatim>\<open>(cost / days_elapsed) * days_in_month\<close> in float arithmetic, rounded to two decimals,
  for a cost that is a float and for one that is an integer: the result is the float
  nearest to \<open>k / 100\<close>, where \<open>k\<close> is the integer nearest to a hundred times the float
  product (the even one when it lies half-way). With \<open>days_elapsed \<le> 0\<close> the estimate is 0,
  whatever the cost cell. A cost of 150 on day 15 of a 30-day month gives 300; a cost of 100
  on day 3 of a 31-day month, where the product is 1033.3333333333335, gives 1033.33. On a
  cache miss \<^verbatim>\<open>get_forecast\<close> returns that estimate for the cost in the first cell of the
  first row: the end of the month comes from the date read before the query, the day of the
  month from the date read after it.
\<close>

theorem forecast_estimate:
  "(valid_date td \<and> \<not> (year td = 9999 \<and> month td = 12) \<longrightarrow>
      end_of_month td = Inr (Date (year td) (month td) (days_in_month (year td) (month td))))
   \<and> (0 < days_elapsed \<longrightarrow>
        estimate (JFloat c) days_elapsed days_in =
          Inr (round2 (fmul (fdiv c (float_of_int days_elapsed)) (float_of_int days_in))))
   \<and> (0 < days_elapsed \<longrightarrow>
        estimate (JInt n) days_elapsed days_in =
          Inr (round2 (fmul (rnd (of_int n / of_int days_elapsed)) (float_of_int days_in))))
   \<and> (0 < days_elapsed \<longrightarrow>
        (\<exists>k. estimate (JFloat c) days_elapsed days_in = Inr (rnd (of_int k / 100)) \<and>
             nearest_int k (fmul (fdiv c (float_of_int days_elapsed)) (float_of_int days_in) * 100)))
   \<and> (0 < days_elapsed \<longrightarrow>
        (\<exists>k. estimate (JInt n) days_elapsed days_in = Inr (rnd (of_int k / 100)) \<and>
             nearest_int k (fmul (rnd (of_int n / of_int days_elapsed)) (float_of_int days_in) * 100)))
   \<and> (days_elapsed \<le> 0 \<longrightarrow> estimate cost_val days_elapsed days_in = Inr 0)
   \<and> estimate (JFloat 150) 15 30 = Inr 300
   \<and> estimate (JInt 150) 15 30 = Inr 300
   \<and> fmul (fdiv 100 (float_of_int 3)) (float_of_int 31) = 2272324030737067 / 2199023255552
   \<and> estimate (JFloat 100) 3 31 = Inr f1033_33
   \<and> estimate (JInt 100) 3 31 = Inr f1033_33
   \<and> (entries (cache s) forecast_key = None \<and>
        end_of_month (today e (today_reads s)) = Inr eom \<and>
        query_costs e forecast_query 3 (s\<lparr>today_reads := Suc (today_reads s)\<rparr>) = (Inr result, s1) \<and>
        current_cost result = Inr (JFloat c) \<and>
        0 < day (today e (today_reads s1)) \<longrightarrow>
        fst (get_forecast e s) =
          Inr (Forecast \<lparr>fc_subscription_id = svc_subscription_id s1, forecast_period_end = eom,
                 estimated_total = round2 (fmul (fdiv c (float_of_int (day (today e (today_reads s1)))))
                                     (float_of_int (day eom))),
                 fc_currency = ''USD''\<rparr>))
   \<and> (entries (cache s) forecast_key = None \<and>
        end_of_month (today e (today_reads s)) = Inr eom \<and>
        query_costs e forecast_query 3 (s\<lparr>today_reads := Suc (today_reads s)\<rparr>) = (Inr result, s1) \<and>
        current_cost result = Inr cost_val \<and>
        estimate cost_val (day (today e (today_reads s1))) (day eom) = Inr x \<longrightarrow>
        fst (get_forecast e s) =
          Inr (Forecast \<lparr>fc_subscription_id = svc_subscription_id s1, forecast_period_end = eom,
                 estimated_total = x, fc_currency = ''USD''\<rparr>))"
proof (intro conjI impI)
  assume "valid_date td \<and> \<not> (year td = 9999 \<and> month td = 12)"
  then show "end_of_month td = Inr (Date (year td) (month td) (days_in_month (year td) (month td)))"
    using end_of_month_date [of "year td" "month td" "day td"]
    by (simp add: valid_date_def)
next
  assume "0 < days_elapsed"
  then show "estimate (JFloat c) days_elapsed days_in =
      Inr (round2 (fmul (fdiv c (float_of_int days_elapsed)) (float_of_int days_in)))"
    by (simp add: estimate_def)
next
  assume "0 < days_elapsed"
  then show "estimate (JInt n) days_elapsed days_in =
      Inr (round2 (fmul (rnd (of_int n / of_int days_elapsed)) (float_of_int days_in)))"
    by (simp add: estimate_def)
next
  assume "0 < days_elapsed"
  then show "\<exists>k. estimate (JFloat c) days_elapsed days_in = Inr (rnd (of_int k / 100)) \<and>
      nearest_int k (fmul (fdiv c (float_of_int days_elapsed)) (float_of_int days_in) * 100)"
    using round2_nearest [of "fmul (fdiv c (float_of_int days_elapsed)) (float_of_int days_in)"]
    by (simp add: estimate_def)
next
  assume "0 < days_elapsed"
  then show "\<exists>k. estimate (JInt n) days_elapsed days_in = Inr (rnd (of_int k / 100)) \<and>
      nearest_int k (fmul (rnd (of_int n / of_int days_elapsed)) (float_of_int days_in) * 100)"
    using round2_nearest [of "fmul (rnd (of_int n / of_int days_elapsed)) (float_of_int days_in)"]
    by (simp add: estimate_def)
next
  assume "days_elapsed \<le> 0"
  then show "estimate cost_val days_elapsed days_in = Inr 0"
    by (simp add: estimate_def)
next
  show "estimate (JFloat 150) 15 30 = Inr 300"
    by code_simp
next
  show "estimate (JInt 150) 15 30 = Inr 300"
    by code_simp
next
  show "fmul (fdiv 100 (float_of_int 3)) (float_of_int 31) = 2272324030737067 / 2199023255552"
    by code_simp
next
  show "estimate (JFloat 100) 3 31 = Inr f1033_33"
    by code_simp
next
  show "estimate (JInt 100) 3 31 = Inr f1033_33"
    by code_simp
next
  assume a: "entries (cache s) forecast_key = None \<and>
        end_of_month (today e (today_reads s)) = Inr eom \<and>
        query_costs e forecast_query 3 (s\<lparr>today_reads := Suc (today_reads s)\<rparr>) = (Inr result, s1) \<and>
        current_cost result = Inr (JFloat c) \<and>
        0 < day (today e (today_reads s1))"
  then have est: "estimate (JFloat c) (day (today e (today_reads s1))) (day eom) =
      Inr (round2 (fmul (fdiv c (float_of_int (day (today e (today_reads s1))))) (float_of_int (day eom))))"
    by (simp add: estimate_def)
  from a have p: "entries (cache s) forecast_key = None"
    "end_of_month (today e (today_reads s)) = Inr eom"
    "query_costs e forecast_query 3 (s\<lparr>today_reads := Suc (today_reads s)\<rparr>) = (Inr result, s1)"
    "current_cost result = Inr (JFloat c)"
    by simp_all
  show "fst (get_forecast e s) =
          Inr (Forecast \<lparr>fc_subscription_id = svc_subscription_id s1, forecast_period_end = eom,
                 estimated_total = round2 (fmul (fdiv c (float_of_int (day (today e (today_reads s1)))))
                                     (float_of_int (day eom))),
                 fc_currency = ''USD''\<rparr>)"
    by (rule get_forecast_fresh [OF p est])
next
  assume "entries (cache s) forecast_key = None \<and>
        end_of_month (today e (today_reads s)) = Inr eom \<and>
        query_costs e forecast_query 3 (s\<lparr>today_reads := Suc (today_reads s)\<rparr>) = (Inr result, s1) \<and>
        current_cost result = Inr cost_val \<and>
        estimate cost_val (day (today e (today_reads s1))) (day eom) = Inr x"
  then show "fst (get_forecast e s) =
          Inr (Forecast \<lparr>fc_subscription_id = svc_subscription_id s1, forecast_period_end = eom,
                 estimated_total = x, fc_currency = ''USD''\<rparr>)"
    by (elim conjE) (rule get_forecast_fresh; assumption)
qed

theorem forecast_estimate_witness:
  "end_of_month (Date 2024 2 10) = Inr (Date 2024 2 29)
   \<and> estimate (JFloat 150) 15 30 = Inr 300
   \<and> estimate (JFloat 150) 0 30 = Inr 0
   \<and> nearest_int 103333 ((2272324030737067 / 2199023255552) * 100)
   \<and> rnd (103333 / 100) = f1033_33
   \<and> (\<exists>k. estimate (JFloat 100) 3 31 = Inr (rnd (of_int k / 100)) \<and>
          nearest_int k (fmul (fdiv 100 (float_of_int 3)) (float_of_int 31) * 100))
   \<and> (\<exists>k. estimate (JInt 100) 3 31 = Inr (rnd (of_int k / 100)) \<and>
          nearest_int k (fmul (rnd (of_int 100 / of_int 3)) (float_of_int 31) * 100))
   \<and> fst (get_forecast retry_once (init ''sub'')) =
       Inr (Forecast \<lparr>fc_subscription_id = ''sub'', forecast_period_end = Date 2024 4 30,
              estimated_total = 300, fc_currency = ''USD''\<rparr>)
   \<and> fst (get_forecast third_of_january (init ''sub'')) =
       Inr (Forecast \<lparr>fc_subscription_id = ''sub'', forecast_period_end = Date 2024 1 31,
              estimated_total = f1033_33, fc_currency = ''USD''\<rparr>)"
proof -
  let ?result = "JObj [(''properties'', JObj [(''rows'', JArr [JArr [JFloat 150]])])]"
  let ?s1 = "(init ''sub'')\<lparr>today_reads := 1, token := Some ''t0'', credential_calls := 1,
    requests := 2, sleeps := [5]\<rparr>"
  let ?result3 = "JObj [(''properties'', JObj [(''rows'', JArr [JArr [JInt 100]])])]"
  let ?s3 = "(init ''sub'')\<lparr>today_reads := 1, token := Some ''t0'', credential_calls := 1,
    requests := 1\<rparr>"
  have v: "valid_date (Date 2024 2 10) \<and> \<not> (year (Date 2024 2 10) = 9999 \<and> month (Date 2024 2 10) = 12)"
    by (simp add: valid_date_def days_in_month_def is_leap_def)
  have feb: "days_in_month 2024 2 = 29"
    by (simp add: days_in_month_def is_leap_def)
  have td: "today retry_once n = Date 2024 4 15" for n
    by (simp add: retry_once_def)
  have td3: "today third_of_january n = Date 2024 1 3" for n
    by (simp add: third_of_january_def)
  have miss: "entries (cache (init ''sub'')) forecast_key = None"
    by (simp add: init_def cache_init_def)
  have eom: "end_of_month (today retry_once (today_reads (init ''sub''))) = Inr (Date 2024 4 30)"
    unfolding td by code_simp
  have eom3: "end_of_month (today third_of_january (today_reads (init ''sub''))) = Inr (Date 2024 1 31)"
    unfolding td3 by code_simp
  have five: "py_int (codes ''5'') = Some 5"
    by code_simp
  have q: "query_costs retry_once forecast_query 3
      ((init ''sub'')\<lparr>today_reads := Suc (today_reads (init ''sub''))\<rparr>) = (Inr ?result, ?s1)"
    by (simp add: query_costs_def get_token_def retry_once_def init_def retry_after_seconds_def five
        finish_def eval_nat_numeral)
  have q3: "query_costs third_of_january forecast_query 3
      ((init ''sub'')\<lparr>today_reads := Suc (today_reads (init ''sub''))\<rparr>) = (Inr ?result3, ?s3)"
    by (simp add: query_costs_def get_token_def third_of_january_def init_def finish_def eval_nat_numeral)
  have c: "current_cost ?result = Inr (JFloat 150)"
    by (simp add: current_cost_def result_rows_def dict_get_def bindR_def truthy_def index_def)
  have c3: "current_cost ?result3 = Inr (JInt 100)"
    by (simp add: current_cost_def result_rows_def dict_get_def bindR_def truthy_def index_def)
  have d: "0 < day (today retry_once (today_reads ?s1))"
    by (simp add: td)
  have r: "round2 (fmul (fdiv 150 (float_of_int 15)) (float_of_int 30)) = 300"
    by code_simp
  have est3: "estimate (JInt 100) (day (today third_of_january (today_reads ?s3)))
      (day (Date 2024 1 31)) = Inr f1033_33"
    unfolding td3 by code_simp
  have n: "nearest_int 103333 ((2272324030737067 / 2199023255552) * 100)"
    by (simp add: nearest_int_def)
  have f: "rnd (103333 / 100) = f1033_33"
    by code_simp
  from forecast_estimate [where td = "Date 2024 2 10" and days_elapsed = 0 and cost_val = "JFloat 150"
      and days_in = 30 and s = "init ''sub''" and e = retry_once and eom = "Date 2024 4 30"
      and result = ?result and ?s1.0 = ?s1 and c = 150] v miss eom q c d
  have a: "end_of_month (Date 2024 2 10) = Inr (Date 2024 2 29)"
    "estimate (JFloat 150) 15 30 = Inr 300"
    "estimate (JFloat 150) 0 30 = Inr 0"
    "fst (get_forecast retry_once (init ''sub'')) =
       Inr (Forecast \<lparr>fc_subscription_id = ''sub'', forecast_period_end = Date 2024 4 30,
              estimated_total = 300, fc_currency = ''USD''\<rparr>)"
    by (simp_all add: feb td r init_def)
  from forecast_estimate [where cost_val = "JInt 100" and s = "init ''sub''" and e = third_of_january
      and eom = "Date 2024 1 31" and result = ?result3 and ?s1.0 = ?s3 and x = f1033_33]
    miss eom3 q3 c3 est3
  have b: "fst (get_forecast third_of_january (init ''sub'')) =
       Inr (Forecast \<lparr>fc_subscription_id = ''sub'', forecast_period_end = Date 2024 1 31,
              estimated_total = f1033_33, fc_currency = ''USD''\<rparr>)"
    by (simp add: init_def)
  have pos: "(0::int) < 3"
    by simp
  note t = forecast_estimate [where td = "Date 2024 2 10" and days_elapsed = 3 and cost_val = "JInt 100"
      and days_in = 31 and s = "init ''sub''" and e = third_of_january and eom = "Date 2024 1 31"
      and result = ?result3 and ?s1.0 = ?s3 and c = 100 and n = 100 and x = f1033_33]
  from t pos have p1: "\<exists>k. estimate (JFloat 100) 3 31 = Inr (rnd (of_int k / 100)) \<and>
          nearest_int k (fmul (fdiv 100 (float_of_int 3)) (float_of_int 31) * 100)"
    by blast
  from t pos have p2: "\<exists>k. estimate (JInt 100) 3 31 = Inr (rnd (of_int k / 100)) \<and>
          nearest_int k (fmul (rnd (of_int 100 / of_int 3)) (float_of_int 31) * 100)"
    by blast
  note p = p1 p2
  from a b n f p show ?thesis
    by (simp only: simp_thms)
qed

end
